theory Spec2Isabelle
  imports Main
begin

section \<open>Python and pandas values\<close>

text \<open>
  The program (\<^verbatim>\<open>APR.py\<close>) copies cell values of an OCR workbook, read with pandas,
  into an openpyxl worksheet. A cell value is one of the scalars pandas hands out.
  Python strings are kept as their UTF-8 bytes: the program only compares and
  concatenates them. A finite float is kept as its \<^verbatim>\<open>repr\<close> (which determines it);
  the program never computes with floats, it tests them for truth, prints them with
  \<^verbatim>\<open>str\<close> and copies them.
\<close>

record date =
  year :: nat
  month :: nat
  day :: nat

record timestamp =
  ts_date :: date
  hour :: nat
  minute :: nat
  second :: nat
  nanosecond :: nat

datatype pyval =
    PNone
  | NaN
  | NaT
  | PBool bool
  | PInt int
  | PFloat string
  | PStr string
  | PTimestamp timestamp
  | PDate date

text \<open>Every exception the modelled code can raise.\<close>

datatype error =
    EmptyGeneralSheet  \<comment> \<open>\<^verbatim>\<open>ValueError("Sheet 'Dossier Technique_general' is empty.")\<close>\<close>
  | IndexError         \<comment> \<open>a list or \<^verbatim>\<open>iloc\<close> index out of range\<close>
  | KeyError           \<comment> \<open>the template has no sheet of the expected name\<close>
  | DatetimeError      \<comment> \<open>\<^verbatim>\<open>pd.to_datetime\<close> cannot convert its argument\<close>
  | AttributeError     \<comment> \<open>\<^verbatim>\<open>.date()\<close> on a value without it; the value of a merged cell is read-only\<close>
  | CoordinateError    \<comment> \<open>openpyxl's \<^verbatim>\<open>ValueError\<close> for a malformed coordinate or column index\<close>

definition err_bind :: "error + 'a \<Rightarrow> ('a \<Rightarrow> error + 'b) \<Rightarrow> error + 'b" where
  "err_bind m f = (case m of Inl e \<Rightarrow> Inl e | Inr x \<Rightarrow> f x)"

text \<open>\<^verbatim>\<open>pd.isna\<close> and \<^verbatim>\<open>pd.notna\<close> on a scalar.\<close>

fun pd_isna :: "pyval \<Rightarrow> bool" where
  "pd_isna PNone = True"
| "pd_isna NaN = True"
| "pd_isna NaT = True"
| "pd_isna _ = False"

definition pd_notna :: "pyval \<Rightarrow> bool" where
  "pd_notna v = (\<not> pd_isna v)"

text \<open>Python truth value: \<^verbatim>\<open>nan\<close> and \<^verbatim>\<open>NaT\<close> are true, zero and the empty string are false.\<close>

fun truthy :: "pyval \<Rightarrow> bool" where
  "truthy PNone = False"
| "truthy NaN = True"
| "truthy NaT = True"
| "truthy (PBool b) = b"
| "truthy (PInt i) = (i \<noteq> 0)"
| "truthy (PFloat r) = (r \<noteq> ''0.0'' \<and> r \<noteq> ''-0.0'')"
| "truthy (PStr s) = (s \<noteq> [])"
| "truthy (PTimestamp t) = True"
| "truthy (PDate d) = True"

text \<open>\<^verbatim>\<open>a or b\<close>\<close>

definition py_or :: "pyval \<Rightarrow> pyval \<Rightarrow> pyval" where
  "py_or a b = (if truthy a then a else b)"

function str_nat :: "nat \<Rightarrow> string" where
  "str_nat n = (if n < 10 then [char_of (n + 48)] else str_nat (n div 10) @ [char_of (n mod 10 + 48)])"
  by pat_completeness auto
termination
  by (relation "measure id") auto

definition zfill :: "nat \<Rightarrow> string \<Rightarrow> string" where
  "zfill k s = replicate (k - length s) (CHR ''0'') @ s"

definition str_date :: "date \<Rightarrow> string" where
  "str_date d = zfill 4 (str_nat (year d)) @ ''-'' @ zfill 2 (str_nat (month d)) @ ''-''
     @ zfill 2 (str_nat (day d))"

definition str_timestamp :: "timestamp \<Rightarrow> string" where
  "str_timestamp t = str_date (ts_date t) @ '' '' @ zfill 2 (str_nat (hour t)) @ '':''
     @ zfill 2 (str_nat (minute t)) @ '':'' @ zfill 2 (str_nat (second t))
     @ (if nanosecond t = 0 then []
        else if nanosecond t mod 1000 = 0 then ''.'' @ zfill 6 (str_nat (nanosecond t div 1000))
        else ''.'' @ zfill 9 (str_nat (nanosecond t)))"

text \<open>\<^verbatim>\<open>str(v)\<close>\<close>

fun py_str :: "pyval \<Rightarrow> string" where
  "py_str PNone = ''None''"
| "py_str NaN = ''nan''"
| "py_str NaT = ''NaT''"
| "py_str (PBool b) = (if b then ''True'' else ''False'')"
| "py_str (PInt i) = (if i < 0 then ''-'' @ str_nat (nat (- i)) else str_nat (nat i))"
| "py_str (PFloat r) = r"
| "py_str (PStr s) = s"
| "py_str (PTimestamp t) = str_timestamp t"
| "py_str (PDate d) = str_date d"

text \<open>\<^verbatim>\<open>xs[i]\<close> for a list and a non-negative index.\<close>

definition py_index :: "'a list \<Rightarrow> nat \<Rightarrow> error + 'a" where
  "py_index xs i = (if i < length xs then Inr (xs ! i) else Inl IndexError)"

subsection \<open>Data frames\<close>

text \<open>
  A table read by \<^verbatim>\<open>pd.read_excel\<close>: its column names and its rows, each row aligned with
  the columns. A row taken out of it (\<^verbatim>\<open>df.iloc[i]\<close>) is a series: labels with values.
  \<^verbatim>\<open>read_excel\<close> makes the column names distinct.
\<close>

record dataframe =
  columns :: "string list"
  rows :: "pyval list list"

type_synonym series = "(string \<times> pyval) list"

text \<open>\<^verbatim>\<open>df.empty\<close>: one of the axes has length 0.\<close>

definition df_empty :: "dataframe \<Rightarrow> bool" where
  "df_empty df = (columns df = [] \<or> rows df = [])"

text \<open>\<^verbatim>\<open>df.iloc[i]\<close>: a negative index counts from the end.\<close>

definition iloc :: "dataframe \<Rightarrow> int \<Rightarrow> error + series" where
  "iloc df i =
     (let n = int (length (rows df)); j = (if i < 0 then n + i else i)
      in if 0 \<le> j \<and> j < n then Inr (zip (columns df) (rows df ! nat j)) else Inl IndexError)"

text \<open>\<^verbatim>\<open>row.get(key)\<close>, that is \<^verbatim>\<open>row.get(key, None)\<close>\<close>

definition series_get :: "series \<Rightarrow> string \<Rightarrow> pyval" where
  "series_get s k = (case map_of s k of Some v \<Rightarrow> v | None \<Rightarrow> PNone)"

text \<open>\<^verbatim>\<open>df[keep]\<close> for labels that are all columns of \<^verbatim>\<open>df\<close>, and \<^verbatim>\<open>df.rename(columns=m)\<close>\<close>

definition df_select :: "dataframe \<Rightarrow> string list \<Rightarrow> dataframe" where
  "df_select df keep =
     \<lparr>columns = keep, rows = map (\<lambda>r. map (series_get (zip (columns df) r)) keep) (rows df)\<rparr>"

definition df_rename :: "dataframe \<Rightarrow> (string \<times> string) list \<Rightarrow> dataframe" where
  "df_rename df m =
     df\<lparr>columns := map (\<lambda>c. case map_of m c of Some c' \<Rightarrow> c' | None \<Rightarrow> c) (columns df)\<rparr>"

text \<open>
  \<^verbatim>\<open>pd.to_datetime(v)\<close> on a scalar. A timestamp is returned as it is and the missing
  values stay missing. What pandas does with a string, a number or any other value
  (dateutil's parser, nanoseconds since the epoch) is the parameter \<open>conv\<close>: it gives
  a timestamp, or \<^verbatim>\<open>NaT\<close> (for the strings pandas reads as missing), or it raises.
\<close>

datatype conversion = Converted timestamp | NotATime | Unconvertible

definition to_datetime :: "(pyval \<Rightarrow> conversion) \<Rightarrow> pyval \<Rightarrow> error + pyval" where
  "to_datetime conv v =
     (case v of
        PTimestamp t \<Rightarrow> Inr (PTimestamp t)
      | PNone \<Rightarrow> Inr PNone
      | NaN \<Rightarrow> Inr NaT
      | NaT \<Rightarrow> Inr NaT
      | _ \<Rightarrow> (case conv v of
                Converted t \<Rightarrow> Inr (PTimestamp t)
              | NotATime \<Rightarrow> Inr NaT
              | Unconvertible \<Rightarrow> Inl DatetimeError))"

text \<open>\<^verbatim>\<open>t.date()\<close>: the year, month and day of a timestamp.\<close>

definition date_of :: "pyval \<Rightarrow> error + pyval" where
  "date_of v =
     (case v of
        PTimestamp t \<Rightarrow> Inr (PDate (ts_date t))
      | NaT \<Rightarrow> Inr NaT
      | _ \<Rightarrow> Inl AttributeError)"

section \<open>openpyxl worksheets\<close>

text \<open>
  A worksheet holds its cells by (row, column) and the table of its merged ranges. In a
  loaded worksheet every cell of a merged range but the top-left one is a
  \<^verbatim>\<open>MergedCell\<close>, whose value cannot be set.
\<close>

record cell_range =
  min_col :: nat
  min_row :: nat
  max_col :: nat
  max_row :: nat

record worksheet =
  merged_cells :: "cell_range list"
  cells :: "nat \<times> nat \<rightharpoonup> pyval"

type_synonym workbook = "string \<rightharpoonup> worksheet"

text \<open>
  \<^verbatim>\<open>get_column_letter\<close>: the loop of openpyxl divides by 26 and borrows on an exact
  division; only the columns A to ZZZ exist.
\<close>

function column_letters :: "nat \<Rightarrow> string" where
  "column_letters col_idx =
     (if col_idx = 0 then []
      else if col_idx mod 26 = 0 then column_letters (col_idx div 26 - 1) @ [char_of (26 + 64 :: nat)]
      else column_letters (col_idx div 26) @ [char_of (col_idx mod 26 + 64)])"
  by pat_completeness auto
termination
  by (relation "measure id") auto

definition get_column_letter :: "nat \<Rightarrow> error + string" where
  "get_column_letter col_idx =
     (if 1 \<le> col_idx \<and> col_idx \<le> 18278 then Inr (column_letters col_idx) else Inl CoordinateError)"

definition is_letter :: "char \<Rightarrow> bool" where
  "is_letter c = ((65 \<le> (of_char c :: nat) \<and> (of_char c :: nat) \<le> 90)
     \<or> (97 \<le> (of_char c :: nat) \<and> (of_char c :: nat) \<le> 122))"

definition is_digit :: "char \<Rightarrow> bool" where
  "is_digit c = (48 \<le> (of_char c :: nat) \<and> (of_char c :: nat) \<le> 57)"

definition letter_index :: "char \<Rightarrow> nat" where
  "letter_index c = (if 97 \<le> (of_char c :: nat) then of_char c - 96 else of_char c - 64)"

text \<open>\<^verbatim>\<open>column_index_from_string\<close>, for one to three letters of either case.\<close>

definition column_index_from_string :: "string \<Rightarrow> nat" where
  "column_index_from_string s = foldl (\<lambda>acc c. acc * 26 + letter_index c) 0 s"

definition int_of_digits :: "string \<Rightarrow> nat" where
  "int_of_digits s = foldl (\<lambda>acc c. acc * 10 + (of_char c - 48)) 0 s"

definition strip_dollar :: "string \<Rightarrow> string" where
  "strip_dollar s = (case s of [] \<Rightarrow> [] | c # r \<Rightarrow> if c = CHR ''$'' then r else s)"

text \<open>
  The (row, column) of a single-cell coordinate such as \<^verbatim>\<open>M1\<close> or \<^verbatim>\<open>$M$1\<close>, as
  \<^verbatim>\<open>range_boundaries\<close> reads it; anything else is refused here.
\<close>

definition cell_position :: "string \<Rightarrow> error + (nat \<times> nat)" where
  "cell_position coord =
     (let s = strip_dollar coord;
          ls = takeWhile is_letter s;
          ds = strip_dollar (dropWhile is_letter s)
      in if ls = [] \<or> 3 < length ls \<or> ds = [] \<or> \<not> list_all is_digit ds \<or> int_of_digits ds = 0
         then Inl CoordinateError
         else Inr (int_of_digits ds, column_index_from_string ls))"

text \<open>\<^verbatim>\<open>coord in rng\<close>: the range is a superset of the cell.\<close>

definition range_contains :: "cell_range \<Rightarrow> nat \<times> nat \<Rightarrow> bool" where
  "range_contains rng rc =
     (min_row rng \<le> fst rc \<and> fst rc \<le> max_row rng \<and> min_col rng \<le> snd rc \<and> snd rc \<le> max_col rng)"

definition coord_in :: "string \<Rightarrow> cell_range \<Rightarrow> error + bool" where
  "coord_in coord rng = err_bind (cell_position coord) (\<lambda>rc. Inr (range_contains rng rc))"

definition is_merged_cell :: "worksheet \<Rightarrow> nat \<times> nat \<Rightarrow> bool" where
  "is_merged_cell ws rc =
     list_ex (\<lambda>rng. range_contains rng rc \<and> rc \<noteq> (min_row rng, min_col rng)) (merged_cells ws)"

text \<open>\<^verbatim>\<open>ws[coord] = v\<close>\<close>

definition ws_setitem :: "worksheet \<Rightarrow> string \<Rightarrow> pyval \<Rightarrow> error + worksheet" where
  "ws_setitem ws coord v =
     err_bind (cell_position coord) (\<lambda>rc.
       if is_merged_cell ws rc then Inl AttributeError
       else Inr (ws\<lparr>cells := (cells ws)(rc \<mapsto> v)\<rparr>))"

section \<open>The program\<close>

subsection \<open>\<^verbatim>\<open>write_into_merged\<close>\<close>

text \<open>The \<^verbatim>\<open>for rng in ws.merged_cells.ranges\<close> loop, with the write after it.\<close>

fun write_into_merged_loop :: "worksheet \<Rightarrow> cell_range list \<Rightarrow> string \<Rightarrow> pyval \<Rightarrow> error + worksheet" where
  "write_into_merged_loop ws [] coord v = ws_setitem ws coord v"
| "write_into_merged_loop ws (rng # rest) coord v =
     err_bind (coord_in coord rng) (\<lambda>inside.
       if inside then
         err_bind (get_column_letter (min_col rng)) (\<lambda>letter.
           ws_setitem ws (letter @ str_nat (min_row rng)) v)
       else write_into_merged_loop ws rest coord v)"

definition write_into_merged :: "worksheet \<Rightarrow> string \<Rightarrow> pyval \<Rightarrow> error + worksheet" where
  "write_into_merged ws coord v =
     (if v = PNone then Inr ws else write_into_merged_loop ws (merged_cells ws) coord v)"

subsection \<open>\<^verbatim>\<open>populate_fiche\<close>\<close>

text \<open>The column names of the OCR workbook and the fixed strings, in UTF-8.\<close>

abbreviation col_numero_of :: string where
  "col_numero_of \<equiv> ''Num'' @ [CHR 0xC3, CHR 0xA9] @ ''ro d' OF''"
abbreviation col_koncile_id :: string where
  "col_koncile_id \<equiv> ''Koncile ID''"
abbreviation col_date_creation :: string where
  "col_date_creation \<equiv> ''Date de cr'' @ [CHR 0xC3, CHR 0xA9] @ ''ation''"
abbreviation col_matiere :: string where
  "col_matiere \<equiv> ''Mati'' @ [CHR 0xC3, CHR 0xA8] @ ''re''"
abbreviation col_tolerance_generale :: string where
  "col_tolerance_generale \<equiv>
     ''Tol'' @ [CHR 0xC3, CHR 0xA9] @ ''rance G'' @ [CHR 0xC3, CHR 0xA9] @ ''n''
       @ [CHR 0xC3, CHR 0xA9] @ ''rale''"
abbreviation col_cotes_plan :: string where
  "col_cotes_plan \<equiv> ''C'' @ [CHR 0xC3, CHR 0xB4] @ ''tes PLAN''"
abbreviation col_tolerance_sup :: string where
  "col_tolerance_sup \<equiv>
     ''Tol'' @ [CHR 0xC3, CHR 0xA9] @ ''rance sup'' @ [CHR 0xC3, CHR 0xA9] @ ''rieure''"
abbreviation col_tolerance_inf :: string where
  "col_tolerance_inf \<equiv>
     ''Tol'' @ [CHR 0xC3, CHR 0xA9] @ ''rance inf'' @ [CHR 0xC3, CHR 0xA9] @ ''rieure''"
abbreviation col_cotes_moyennes :: string where
  "col_cotes_moyennes \<equiv> ''C'' @ [CHR 0xC3, CHR 0xB4] @ ''tes MOYENNES''"
abbreviation col_outil :: string where
  "col_outil \<equiv> ''Outil de mesure''"
abbreviation sheet_fiche :: string where
  "sheet_fiche \<equiv> ''Fiche de contr'' @ [CHR 0xC3, CHR 0xB4] @ ''le''"
abbreviation file_name_prefix :: string where
  "file_name_prefix \<equiv>
     ''Fiche de Contr'' @ [CHR 0xC3, CHR 0xB4] @ ''le - OF n'' @ [CHR 0xC2, CHR 0xB0] @ '' ''"

definition MAX_PLAN_SLOTS :: int where
  "MAX_PLAN_SLOTS = 6"

text \<open>The local function \<^verbatim>\<open>get_val\<close>, with the row it closes over.\<close>

definition get_val :: "series \<Rightarrow> string \<Rightarrow> pyval" where
  "get_val row col_name = (let v = series_get row col_name in if pd_isna v then PNone else v)"

text \<open>The value of the key \<^verbatim>\<open>"X2"\<close>: the conditional expression around \<^verbatim>\<open>pd.to_datetime\<close>.\<close>

definition creation_date :: "(pyval \<Rightarrow> conversion) \<Rightarrow> series \<Rightarrow> error + pyval" where
  "creation_date conv row =
     (if pd_notna (get_val row col_date_creation)
      then err_bind (to_datetime conv (get_val row col_date_creation)) date_of
      else Inr PNone)"

text \<open>
  The dictionary \<^verbatim>\<open>assignments\<close>, in insertion order (its keys are distinct). All its
  values are computed before the first write.
\<close>

definition assignments :: "(pyval \<Rightarrow> conversion) \<Rightarrow> series \<Rightarrow> error + (string \<times> pyval) list" where
  "assignments conv row =
     err_bind (creation_date conv row) (\<lambda>d. Inr
       [(''M1'', get_val row ''Nom du client''),
        (''T1'', get_val row col_numero_of),
        (''K2'', get_val row ''Nom du plan''),
        (''T2'', get_val row ''Indice plan''),
        (''X2'', d),
        (''X4'', get_val row col_matiere),
        (''X5'', get_val row ''Couleur''),
        (''X6'', get_val row col_tolerance_generale),
        (''X7'', get_val row ''RA mini''),
        (''X8'', get_val row ''Cassage Angles Vifs'')])"

text \<open>\<^verbatim>\<open>for coord, value in assignments.items(): write_into_merged(ws, coord, value)\<close>\<close>

fun write_assignments :: "worksheet \<Rightarrow> (string \<times> pyval) list \<Rightarrow> error + worksheet" where
  "write_assignments ws [] = Inr ws"
| "write_assignments ws ((coord, v) # rest) =
     err_bind (write_into_merged ws coord v) (\<lambda>ws'. write_assignments ws' rest)"

definition plan_cells :: "string list" where
  "plan_cells = [''G9'', ''I9'', ''K9'', ''M9'', ''O9'', ''Q9'']"
definition plus_cells :: "string list" where
  "plus_cells = [''G10'', ''I10'', ''K10'', ''M10'', ''O10'', ''Q10'']"
definition minus_cells :: "string list" where
  "minus_cells = [''G11'', ''I11'', ''K11'', ''M11'', ''O11'', ''Q11'']"
definition moyenne_cells :: "string list" where
  "moyenne_cells = [''G12'', ''I12'', ''K12'', ''M12'', ''O12'', ''Q12'']"
definition tools_cells :: "string list" where
  "tools_cells = [''F14'', ''H14'', ''J14'', ''L14'', ''N14'', ''P14'']"

definition col_map :: "(string \<times> string) list" where
  "col_map =
     [(col_cotes_plan, ''cote''),
      (col_tolerance_sup, ''plus''),
      (col_tolerance_inf, ''minus''),
      (col_cotes_moyennes, ''moy''),
      (col_outil, ''outil'')]"

text \<open>\<^verbatim>\<open>if pd.notna(v): ws[cells[i]] = v\<close>: the list is indexed only when the value is there.\<close>

definition write_if_notna :: "worksheet \<Rightarrow> string list \<Rightarrow> nat \<Rightarrow> pyval \<Rightarrow> error + worksheet" where
  "write_if_notna ws cs i v =
     (if pd_notna v then err_bind (py_index cs i) (\<lambda>coord. ws_setitem ws coord v) else Inr ws)"

text \<open>The body of the loop over the slots, for the slot \<open>i\<close>.\<close>

definition write_slot :: "worksheet \<Rightarrow> dataframe \<Rightarrow> nat \<Rightarrow> error + worksheet" where
  "write_slot ws dfL i =
     err_bind (iloc dfL (int i)) (\<lambda>r.
       let v_cote = series_get r ''cote'';
           v_plus = series_get r ''plus'';
           v_minus = series_get r ''minus'';
           v_moy = series_get r ''moy'';
           v_outil = series_get r ''outil''
       in err_bind (write_if_notna ws plan_cells i v_cote) (\<lambda>ws.
          err_bind (write_if_notna ws plus_cells i v_plus) (\<lambda>ws.
          err_bind (write_if_notna ws minus_cells i v_minus) (\<lambda>ws.
          err_bind (write_if_notna ws moyenne_cells i v_moy) (\<lambda>ws.
          write_if_notna ws tools_cells i v_outil)))))"

fun write_slots :: "worksheet \<Rightarrow> dataframe \<Rightarrow> nat list \<Rightarrow> error + worksheet" where
  "write_slots ws dfL [] = Inr ws"
| "write_slots ws dfL (i # rest) = err_bind (write_slot ws dfL i) (\<lambda>ws'. write_slots ws' dfL rest)"

text \<open>Lines 108 to 122: the columns kept, the renamed table and the loop over \<^verbatim>\<open>range(min(max_plan, len(dfL)))\<close>.\<close>

definition write_lines :: "worksheet \<Rightarrow> dataframe \<Rightarrow> int \<Rightarrow> error + worksheet" where
  "write_lines ws df_lines max_plan =
     (let keep = filter (\<lambda>c. c \<in> set (columns df_lines)) (map fst col_map)
      in if keep \<noteq> [] then
           let dfL = df_rename (df_select df_lines keep) col_map
           in write_slots ws dfL [0 ..< nat (min max_plan (int (length (rows dfL))))]
         else Inr ws)"

text \<open>The identifier of the file name, \<^verbatim>\<open>str(a or b or "")\<close>, and the file name.\<close>

definition num_of :: "series \<Rightarrow> string" where
  "num_of row =
     py_str (py_or (py_or (series_get row col_numero_of) (series_get row col_koncile_id)) (PStr []))"

definition file_name :: "series \<Rightarrow> string" where
  "file_name row = file_name_prefix @ num_of row @ ''.xlsx''"

text \<open>
  \<^verbatim>\<open>populate_fiche\<close>, from the two tables that \<^verbatim>\<open>pd.read_excel\<close> returned and the workbook
  that \<^verbatim>\<open>load_workbook\<close> returned. The result is the workbook that is saved and the file
  name. Reading and saving the files is outside the model.
\<close>

definition populate_fiche ::
  "(pyval \<Rightarrow> conversion) \<Rightarrow> dataframe \<Rightarrow> dataframe \<Rightarrow> workbook \<Rightarrow> int \<Rightarrow> int
     \<Rightarrow> error + (workbook \<times> string)" where
  "populate_fiche conv df_gen df_lines wb row_index max_plan =
     (if df_empty df_gen then Inl EmptyGeneralSheet
      else err_bind (iloc df_gen row_index) (\<lambda>row.
        case wb sheet_fiche of
          None \<Rightarrow> Inl KeyError
        | Some ws \<Rightarrow>
            err_bind (assignments conv row) (\<lambda>asg.
            err_bind (write_assignments ws asg) (\<lambda>ws1.
            err_bind (write_lines ws1 df_lines max_plan) (\<lambda>ws2.
              Inr (wb(sheet_fiche \<mapsto> ws2), file_name row))))))"

section \<open>The template contract and the resolver of the specification\<close>

text \<open>
  The merged-region table of a loaded worksheet: every range starts at a column that has
  letters (A to ZZZ) and at a row from 1 on, and two different ranges share no cell.
\<close>

definition anchor :: "cell_range \<Rightarrow> nat \<times> nat" where
  "anchor rng = (min_row rng, min_col rng)"

definition valid_range :: "cell_range \<Rightarrow> bool" where
  "valid_range rng = (1 \<le> min_col rng \<and> min_col rng \<le> 18278 \<and> 1 \<le> min_row rng)"

definition ranges_disjoint :: "cell_range \<Rightarrow> cell_range \<Rightarrow> bool" where
  "ranges_disjoint a b =
     (max_row a < min_row b \<or> max_row b < min_row a \<or> max_col a < min_col b \<or> max_col b < min_col a)"

definition merged_table_ok :: "cell_range list \<Rightarrow> bool" where
  "merged_table_ok rs =
     (list_all valid_range rs \<and> list_all (\<lambda>a. list_all (\<lambda>b. a = b \<or> ranges_disjoint a b) rs) rs)"

text \<open>
  The resolver as the specification words it: the anchor of a range of the table that
  contains the coordinate, the coordinate itself when there is none.
\<close>

definition spec_resolve :: "cell_range list \<Rightarrow> nat \<times> nat \<Rightarrow> nat \<times> nat" where
  "spec_resolve rs rc = (case find (\<lambda>rng. range_contains rng rc) rs of Some rng \<Rightarrow> anchor rng | None \<Rightarrow> rc)"

text \<open>
  What a sheet shows at a coordinate: the value of the cell, the value of the anchor for
  a coordinate inside a merged range.
\<close>

definition target :: "cell_range list \<Rightarrow> string \<Rightarrow> nat \<times> nat" where
  "target rs coord = (case cell_position coord of Inr rc \<Rightarrow> spec_resolve rs rc | Inl e \<Rightarrow> (0, 0))"

definition shown_at :: "worksheet \<Rightarrow> string \<Rightarrow> pyval option" where
  "shown_at ws coord = cells ws (target (merged_cells ws) coord)"

text \<open>
  The placement of the specification: the header fields with the column of the general
  record that each one shows (the date field, \<^verbatim>\<open>X2\<close>, apart), and the five rows of the
  measurement grid with the column of the line records that each one shows.
\<close>

definition header_cells :: "string list" where
  "header_cells = [''M1'', ''T1'', ''K2'', ''T2'', ''X2'', ''X4'', ''X5'', ''X6'', ''X7'', ''X8'']"

definition header_layout :: "(string \<times> string) list" where
  "header_layout =
     [(''M1'', ''Nom du client''),
      (''T1'', col_numero_of),
      (''K2'', ''Nom du plan''),
      (''T2'', ''Indice plan''),
      (''X4'', col_matiere),
      (''X5'', ''Couleur''),
      (''X6'', col_tolerance_generale),
      (''X7'', ''RA mini''),
      (''X8'', ''Cassage Angles Vifs'')]"


definition grid_cells :: "string list" where
  "grid_cells = plan_cells @ plus_cells @ minus_cells @ moyenne_cells @ tools_cells"

text \<open>The value of a column in the \<open>i\<close>-th line record; \<^verbatim>\<open>None\<close> when the table has no such column.\<close>

definition line_value :: "dataframe \<Rightarrow> string \<Rightarrow> nat \<Rightarrow> pyval" where
  "line_value df col i = series_get (zip (columns df) (rows df ! i)) col"

text \<open>
  The template contract: a well-formed table of merged ranges, none of which touches the
  measurement grid; and, where a claim needs it, header fields that are shown in ten
  different cells.
\<close>

definition grid_unmerged :: "cell_range list \<Rightarrow> bool" where
  "grid_unmerged rs =
     list_all (\<lambda>c. case cell_position c of
                       Inr rc \<Rightarrow> list_all (\<lambda>rng. \<not> range_contains rng rc) rs
                     | Inl e \<Rightarrow> False) grid_cells"

definition template_ok :: "worksheet \<Rightarrow> bool" where
  "template_ok ws = (merged_table_ok (merged_cells ws) \<and> grid_unmerged (merged_cells ws))"

definition header_targets_distinct :: "worksheet \<Rightarrow> bool" where
  "header_targets_distinct ws = distinct (map (target (merged_cells ws)) header_cells)"

text \<open>A sequence of writes, applied to the cells in order.\<close>

definition apply_writes :: "(nat \<times> nat \<rightharpoonup> pyval) \<Rightarrow> ((nat \<times> nat) \<times> pyval) list \<Rightarrow> (nat \<times> nat \<rightharpoonup> pyval)" where
  "apply_writes m ws = foldl (\<lambda>m (p, v). m(p \<mapsto> v)) m ws"

definition header_writes :: "cell_range list \<Rightarrow> (string \<times> pyval) list \<Rightarrow> ((nat \<times> nat) \<times> pyval) list" where
  "header_writes rs asg = map (\<lambda>(c, v). (target rs c, v)) (filter (\<lambda>(c, v). v \<noteq> PNone) asg)"

text \<open>
  The writes of the measurement grid: the slot \<open>i\<close> takes the \<open>i\<close>-th line record, and
  shows each of its five values that is not missing, in the rows 9 to 12 (columns G, I,
  ..., Q) and in the row 14 (columns F, H, ..., P).
\<close>

definition slot_write :: "dataframe \<Rightarrow> nat \<Rightarrow> nat \<Rightarrow> nat \<Rightarrow> string \<Rightarrow> ((nat \<times> nat) \<times> pyval) list" where
  "slot_write df i r c0 col =
     (if pd_notna (line_value df col i) then [((r, c0 + 2 * i), line_value df col i)] else [])"

definition slot_writes :: "dataframe \<Rightarrow> nat \<Rightarrow> ((nat \<times> nat) \<times> pyval) list" where
  "slot_writes df i =
     slot_write df i 9 7 col_cotes_plan @ slot_write df i 10 7 col_tolerance_sup
       @ slot_write df i 11 7 col_tolerance_inf @ slot_write df i 12 7 col_cotes_moyennes
       @ slot_write df i 14 6 col_outil"

definition grid_writes :: "dataframe \<Rightarrow> nat \<Rightarrow> ((nat \<times> nat) \<times> pyval) list" where
  "grid_writes df k = concat (map (slot_writes df) [0 ..< k])"

text \<open>The name a column of the line table has after \<^verbatim>\<open>rename(columns=col_map)\<close>.\<close>

definition renamed :: "string \<Rightarrow> string" where
  "renamed c = (case map_of col_map c of Some c' \<Rightarrow> c' | None \<Rightarrow> c)"

text \<open>The five rows of the grid: the row, the column of the slot 0 and the source column.\<close>

definition grid_origin :: "(nat \<times> nat \<times> string) list" where
  "grid_origin =
     [(9, 7, col_cotes_plan), (10, 7, col_tolerance_sup), (11, 7, col_tolerance_inf),
      (12, 7, col_cotes_moyennes), (14, 6, col_outil)]"

text \<open>
  What two runs are compared on: the error, or the cells of the sheet that was written
  together with the file name (the bytes of the saved file hold more, such as the time
  of saving).
\<close>

definition written :: "error + (workbook \<times> string) \<Rightarrow> error + ((nat \<times> nat \<rightharpoonup> pyval) option \<times> string)" where
  "written r = map_sum id (\<lambda>(wb, name). (map_option cells (wb sheet_fiche), name)) r"

text \<open>
  Two copies of one template: the same cells and the same merged ranges. openpyxl keeps
  the ranges in a set, so one copy may enumerate them in another order than the other.
\<close>

definition same_template :: "worksheet \<Rightarrow> worksheet \<Rightarrow> bool" where
  "same_template ws1 ws2 =
     (cells ws1 = cells ws2 \<and> set (merged_cells ws1) = set (merged_cells ws2)
      \<and> merged_table_ok (merged_cells ws1))"


subsection \<open>Example data\<close>

text \<open>A sheet with the merged ranges K2:M2, X4:Z4 and L1:N1 and no value yet.\<close>

definition ex_sheet :: worksheet where
  "ex_sheet =
     \<lparr>merged_cells =
        [\<lparr>min_col = 11, min_row = 2, max_col = 13, max_row = 2\<rparr>,
         \<lparr>min_col = 24, min_row = 4, max_col = 26, max_row = 4\<rparr>,
         \<lparr>min_col = 12, min_row = 1, max_col = 14, max_row = 1\<rparr>],
      cells = Map.empty\<rparr>"

text \<open>
  An instance of the conversion parameter for the examples, applied there to strings
  only: it reads the ISO 8601 forms \<^verbatim>\<open>YYYY-MM-DD\<close> and \<^verbatim>\<open>YYYY-MM-DD HH:MM:SS\<close>, takes
  the empty string and \<^verbatim>\<open>NaT\<close> as missing and refuses every other string.
\<close>

definition digits_value :: "string \<Rightarrow> nat option" where
  "digits_value s = (if s \<noteq> [] \<and> list_all is_digit s then Some (int_of_digits s) else None)"

definition days_in_month :: "nat \<Rightarrow> nat \<Rightarrow> nat" where
  "days_in_month y m =
     (if m = 2 then (if y mod 4 = 0 \<and> (y mod 100 \<noteq> 0 \<or> y mod 400 = 0) then 29 else 28)
      else if m = 4 \<or> m = 6 \<or> m = 9 \<or> m = 11 then 30 else 31)"

definition iso_date :: "string \<Rightarrow> date option" where
  "iso_date s =
     (if length s = 10 \<and> s ! 4 = CHR ''-'' \<and> s ! 7 = CHR ''-'' then
        (case (digits_value (take 4 s), digits_value (take 2 (drop 5 s)), digits_value (drop 8 s)) of
           (Some y, Some m, Some d) \<Rightarrow>
             if 1 \<le> y \<and> 1 \<le> m \<and> m \<le> 12 \<and> 1 \<le> d \<and> d \<le> days_in_month y m
             then Some \<lparr>year = y, month = m, day = d\<rparr> else None
         | _ \<Rightarrow> None)
      else None)"

definition iso_time :: "string \<Rightarrow> (nat \<times> nat \<times> nat) option" where
  "iso_time s =
     (if length s = 8 \<and> s ! 2 = CHR '':'' \<and> s ! 5 = CHR '':'' then
        (case (digits_value (take 2 s), digits_value (take 2 (drop 3 s)), digits_value (drop 6 s)) of
           (Some h, Some m, Some sec) \<Rightarrow>
             if h < 24 \<and> m < 60 \<and> sec < 60 then Some (h, m, sec) else None
         | _ \<Rightarrow> None)
      else None)"

definition iso_conv :: "pyval \<Rightarrow> conversion" where
  "iso_conv v =
     (case v of
        PStr s \<Rightarrow>
          (if s = [] \<or> s = ''NaT'' then NotATime
           else if length s = 10 then
             (case iso_date s of
                Some d \<Rightarrow> Converted \<lparr>ts_date = d, hour = 0, minute = 0, second = 0, nanosecond = 0\<rparr>
              | None \<Rightarrow> Unconvertible)
           else if length s = 19 \<and> s ! 10 = CHR '' '' then
             (case (iso_date (take 10 s), iso_time (drop 11 s)) of
                (Some d, Some (h, m, sec)) \<Rightarrow>
                  Converted \<lparr>ts_date = d, hour = h, minute = m, second = sec, nanosecond = 0\<rparr>
              | _ \<Rightarrow> Unconvertible)
           else Unconvertible)
      | _ \<Rightarrow> Unconvertible)"

text \<open>
  A general table of one row, with the work-order number and the creation date left
  open, a table of measurement lines and a template workbook.
\<close>

definition ex_general :: "pyval \<Rightarrow> pyval \<Rightarrow> dataframe" where
  "ex_general of_number creation =
     \<lparr>columns = [''Nom du client'', col_numero_of, col_koncile_id, col_date_creation, ''Nom du plan''],
      rows = [[PStr ''ACME'', of_number, PStr ''K-42'', creation, PStr ''P-7'']]\<rparr>"

definition ex_timestamp :: timestamp where
  "ex_timestamp =
     \<lparr>ts_date = \<lparr>year = 2024, month = 3, day = 15\<rparr>, hour = 14, minute = 30, second = 0, nanosecond = 0\<rparr>"

definition ex_lines :: dataframe where
  "ex_lines =
     \<lparr>columns = [col_cotes_plan, col_tolerance_sup, col_tolerance_inf, col_cotes_moyennes, col_outil],
      rows =
        [[PInt 10, PFloat ''0.1'', PFloat ''-0.1'', PFloat ''10.02'', PStr ''PAC''],
         [PFloat ''2.5'', PFloat ''0.05'', PFloat ''-0.05'', PFloat ''2.51'', NaN]]\<rparr>"

definition ex_workbook :: workbook where
  "ex_workbook = [sheet_fiche \<mapsto> ex_sheet]"



text \<open>A second copy of the sheet, which lists its merged ranges in the reverse order.\<close>

definition ex_sheet_reordered :: worksheet where
  "ex_sheet_reordered = ex_sheet\<lparr>merged_cells := rev (merged_cells ex_sheet)\<rparr>"


section \<open>Coordinates: letters and digits read back\<close>

declare column_letters.simps [simp del]
declare str_nat.simps [simp del]

lemma column_letters_0: "column_letters 0 = []"
  by (subst column_letters.simps) simp

lemma pred_div_mod_exact:
  assumes "0 < (n::nat)" "n mod 26 = 0"
  shows "(n - 1) div 26 = n div 26 - 1" "(n - 1) mod 26 = 25"
proof -
  obtain q where q: "n = 26 * q" using assms(2) by auto
  with assms(1) have q0: "0 < q" by simp
  then obtain p where p: "q = Suc p" by (cases q) auto
  have e: "n - 1 = p * 26 + 25" using q p by simp
  show "(n - 1) div 26 = n div 26 - 1" unfolding e using q p by simp
  show "(n - 1) mod 26 = 25" unfolding e by simp
qed

lemma pred_div_mod_inexact:
  assumes "n mod 26 \<noteq> (0::nat)"
  shows "(n - 1) div 26 = n div 26" "(n - 1) mod 26 + 1 = n mod 26"
proof -
  obtain r where r: "n mod 26 = Suc r" using assms by (cases "n mod 26") auto
  have r25: "r < 26" using r mod_less_divisor [of 26 n] by simp
  have "n = n div 26 * 26 + Suc r" using r by (metis div_mult_mod_eq)
  then have e: "n - 1 = n div 26 * 26 + r" by simp
  have "(n div 26 * 26 + r) div 26 = n div 26" using r25 by simp
  then show "(n - 1) div 26 = n div 26" using e by simp
  have "(n div 26 * 26 + r) mod 26 = r" using r25 by simp
  then show "(n - 1) mod 26 + 1 = n mod 26" using e r by simp
qed

lemma column_letters_step:
  "0 < n \<Longrightarrow> column_letters n = column_letters ((n - 1) div 26) @ [char_of ((n - 1) mod 26 + 65)]"
proof -
  assume n: "0 < n"
  show ?thesis
  proof (cases "n mod 26 = 0")
    case True
    note dm = pred_div_mod_exact [OF n True]
    show ?thesis using n True dm by (subst column_letters.simps) simp
  next
    case False
    note dm = pred_div_mod_inexact [OF False]
    have "n mod 26 + 64 = (n - 1) mod 26 + 65" using dm(2) by simp
    then show ?thesis using n False dm(1) by (subst column_letters.simps) simp
  qed
qed

lemma letter_index_upper: "(k::nat) < 26 \<Longrightarrow> letter_index (char_of (k + 65)) = k + 1"
  by (simp add: letter_index_def of_char_of)

lemma is_letter_upper: "(k::nat) < 26 \<Longrightarrow> is_letter (char_of (k + 65))"
  by (simp add: is_letter_def of_char_of)

lemma pred_div_less: "0 < (n::nat) \<Longrightarrow> (n - 1) div 26 < n"
  by (metis div_le_dividend diff_less le_less_trans zero_less_one)

lemma column_index_letters: "column_index_from_string (column_letters n) = n"
proof (induction n rule: less_induct)
  case (less n)
  show ?case
  proof (cases "n = 0")
    case True
    then show ?thesis by (simp add: column_index_from_string_def column_letters_0)
  next
    case False
    then have n: "0 < n" by simp
    have ih: "column_index_from_string (column_letters ((n - 1) div 26)) = (n - 1) div 26"
      using pred_div_less [OF n] by (rule less.IH)
    have "column_index_from_string (column_letters n)
        = column_index_from_string (column_letters ((n - 1) div 26)) * 26
            + letter_index (char_of ((n - 1) mod 26 + 65))"
      by (simp add: column_letters_step [OF n] column_index_from_string_def)
    also have "\<dots> = (n - 1) div 26 * 26 + ((n - 1) mod 26 + 1)"
      using ih by (simp add: letter_index_upper)
    also have "\<dots> = n" using n by simp
    finally show ?thesis .
  qed
qed

lemma column_letters_all_letters: "list_all is_letter (column_letters n)"
proof (induction n rule: less_induct)
  case (less n)
  show ?case
  proof (cases "n = 0")
    case True
    then show ?thesis by (simp add: column_letters_0)
  next
    case False
    then have n: "0 < n" by simp
    have "list_all is_letter (column_letters ((n - 1) div 26))"
      using pred_div_less [OF n] by (rule less.IH)
    then show ?thesis
      by (simp add: column_letters_step [OF n] is_letter_upper)
  qed
qed

lemma column_letters_nonempty: "0 < n \<Longrightarrow> column_letters n \<noteq> []"
  by (simp add: column_letters_step)

lemma column_letters_length: "n \<le> 18278 \<Longrightarrow> length (column_letters n) \<le> 3"
proof -
  assume b: "n \<le> 18278"
  have l1: "length (column_letters m) \<le> 1" if "m \<le> 26" for m
  proof (cases "m = 0")
    case False
    then have "(m - 1) div 26 = 0" using that by simp
    then show ?thesis using False by (simp add: column_letters_step column_letters_0)
  qed (simp add: column_letters_0)
  have l2: "length (column_letters m) \<le> 2" if "m \<le> 702" for m
  proof (cases "m = 0")
    case False
    have "(m - 1) div 26 \<le> 26" using that by simp
    from l1 [OF this] show ?thesis using False by (simp add: column_letters_step)
  qed (simp add: column_letters_0)
  show ?thesis
  proof (cases "n = 0")
    case False
    have "(n - 1) div 26 \<le> 702" using b by simp
    from l2 [OF this] show ?thesis using False by (simp add: column_letters_step)
  qed (simp add: column_letters_0)
qed

lemma str_nat_step: "10 \<le> n \<Longrightarrow> str_nat n = str_nat (n div 10) @ [char_of (n mod 10 + 48)]"
  by (subst str_nat.simps) simp

lemma str_nat_small: "n < 10 \<Longrightarrow> str_nat n = [char_of (n + 48)]"
  by (subst str_nat.simps) simp

lemma is_digit_char: "(k::nat) < 10 \<Longrightarrow> is_digit (char_of (k + 48))"
  by (simp add: is_digit_def of_char_of)

lemma digit_value: "(k::nat) < 10 \<Longrightarrow> (of_char (char_of (k + 48)) :: nat) - 48 = k"
  by (simp add: of_char_of)

lemma str_nat_all_digits: "list_all is_digit (str_nat n)"
proof (induction n rule: less_induct)
  case (less n)
  show ?case
  proof (cases "n < 10")
    case True
    then show ?thesis by (simp add: str_nat_small is_digit_char)
  next
    case False
    then have "list_all is_digit (str_nat (n div 10))" by (intro less.IH) simp
    then show ?thesis using False by (simp add: str_nat_step is_digit_char)
  qed
qed

lemma int_of_digits_str_nat: "int_of_digits (str_nat n) = n"
proof (induction n rule: less_induct)
  case (less n)
  show ?case
  proof (cases "n < 10")
    case True
    then show ?thesis by (simp add: str_nat_small int_of_digits_def digit_value)
  next
    case False
    then have "int_of_digits (str_nat (n div 10)) = n div 10" by (intro less.IH) simp
    then show ?thesis using False
      by (simp add: str_nat_step int_of_digits_def digit_value)
  qed
qed

lemma str_nat_nonempty: "str_nat n \<noteq> []"
  by (subst str_nat.simps) simp

lemma digit_not_letter: "is_digit c \<Longrightarrow> \<not> is_letter c"
  by (auto simp: is_digit_def is_letter_def)

lemma digit_not_dollar: "is_digit c \<Longrightarrow> c \<noteq> CHR ''$''"
  by (auto simp: is_digit_def)

lemma letter_not_dollar: "is_letter c \<Longrightarrow> c \<noteq> CHR ''$''"
  by (auto simp: is_letter_def)

lemma strip_dollar_id: "s \<noteq> [] \<Longrightarrow> hd s \<noteq> CHR ''$'' \<Longrightarrow> strip_dollar s = s"
  by (cases s) (simp_all add: strip_dollar_def)

lemma anchor_position:
  assumes c: "1 \<le> c" "c \<le> 18278" and r: "1 \<le> r"
  shows "cell_position (column_letters c @ str_nat r) = Inr (r, c)"
proof -
  let ?ls = "column_letters c" and ?ds = "str_nat r"
  have ls: "?ls \<noteq> []" "list_all is_letter ?ls" "length ?ls \<le> 3"
    using c by (simp_all add: column_letters_nonempty column_letters_all_letters column_letters_length)
  have ds: "?ds \<noteq> []" "list_all is_digit ?ds"
    by (simp_all add: str_nat_nonempty str_nat_all_digits)
  from ds obtain d ds' where dd: "?ds = d # ds'" "is_digit d"
    by (cases ?ds) auto
  have hl: "is_letter (hd ?ls)" using ls by (cases ?ls) auto
  have s1: "strip_dollar (?ls @ ?ds) = ?ls @ ?ds"
    using ls hl by (intro strip_dollar_id) (auto simp: letter_not_dollar)
  have tw: "takeWhile is_letter (?ls @ ?ds) = ?ls"
    using ls dd by (simp add: takeWhile_append2 list_all_iff digit_not_letter)
  have dw: "dropWhile is_letter (?ls @ ?ds) = ?ds"
    using ls dd by (simp add: dropWhile_append2 list_all_iff digit_not_letter)
  have s2: "strip_dollar ?ds = ?ds"
    using dd by (intro strip_dollar_id) (auto simp: digit_not_dollar)
  show ?thesis
    unfolding cell_position_def s1 Let_def tw dw s2
    using ls ds r by (simp add: int_of_digits_str_nat column_index_letters)
qed

section \<open>The write through the merged-region table\<close>

lemma disjoint_no_common_cell:
  "ranges_disjoint a b \<Longrightarrow> range_contains a rc \<Longrightarrow> range_contains b rc \<Longrightarrow> False"
  by (auto simp: ranges_disjoint_def range_contains_def)

lemma contains_anchor: "range_contains rng rc \<Longrightarrow> range_contains rng (anchor rng)"
  by (auto simp: range_contains_def anchor_def)

lemma table_ok_unique:
  assumes "merged_table_ok rs" "a \<in> set rs" "b \<in> set rs" "range_contains a rc" "range_contains b rc"
  shows "a = b"
  using assms disjoint_no_common_cell [of a b rc]
  by (auto simp: merged_table_ok_def list_all_iff)

lemma table_ok_valid: "merged_table_ok rs \<Longrightarrow> rng \<in> set rs \<Longrightarrow> valid_range rng"
  by (simp add: merged_table_ok_def list_all_iff)

lemma anchor_not_merged_cell:
  assumes ok: "merged_table_ok (merged_cells ws)" and rng: "rng \<in> set (merged_cells ws)"
    and c: "range_contains rng rc"
  shows "\<not> is_merged_cell ws (anchor rng)"
proof
  assume "is_merged_cell ws (anchor rng)"
  then obtain r where r: "r \<in> set (merged_cells ws)" "range_contains r (anchor rng)"
    "anchor rng \<noteq> (min_row r, min_col r)"
    by (auto simp: is_merged_cell_def list_ex_iff)
  have "r = rng"
    using table_ok_unique [OF ok r(1) rng r(2) contains_anchor [OF c]] .
  with r(3) show False by (simp add: anchor_def)
qed

lemma outside_not_merged_cell:
  "\<forall>rng\<in>set (merged_cells ws). \<not> range_contains rng rc \<Longrightarrow> \<not> is_merged_cell ws rc"
  by (auto simp: is_merged_cell_def list_ex_iff)

lemma ws_setitem_at:
  "cell_position coord = Inr rc \<Longrightarrow>
     ws_setitem ws coord v =
       (if is_merged_cell ws rc then Inl AttributeError else Inr (ws\<lparr>cells := (cells ws)(rc \<mapsto> v)\<rparr>))"
  by (simp add: ws_setitem_def err_bind_def)

lemma write_anchor:
  assumes "valid_range rng"
  shows "err_bind (get_column_letter (min_col rng)) (\<lambda>letter. ws_setitem ws (letter @ str_nat (min_row rng)) v)
         = (if is_merged_cell ws (anchor rng) then Inl AttributeError
            else Inr (ws\<lparr>cells := (cells ws)(anchor rng \<mapsto> v)\<rparr>))"
proof -
  from assms have v: "1 \<le> min_col rng" "min_col rng \<le> 18278" "1 \<le> min_row rng"
    by (simp_all add: valid_range_def)
  have "cell_position (column_letters (min_col rng) @ str_nat (min_row rng)) = Inr (anchor rng)"
    using anchor_position [OF v] by (simp add: anchor_def)
  then show ?thesis
    using v by (simp add: get_column_letter_def err_bind_def ws_setitem_at)
qed

lemma loop_find:
  assumes "cell_position coord = Inr rc"
  shows "write_into_merged_loop ws rs coord v =
     (case find (\<lambda>rng. range_contains rng rc) rs of
        None \<Rightarrow> ws_setitem ws coord v
      | Some rng \<Rightarrow> err_bind (get_column_letter (min_col rng))
          (\<lambda>letter. ws_setitem ws (letter @ str_nat (min_row rng)) v))"
  using assms by (induction rs) (simp_all add: coord_in_def err_bind_def)

lemma find_in_table:
  "find P rs = Some x \<Longrightarrow> x \<in> set rs \<and> P x"
  by (induction rs) (auto split: if_splits)

lemma write_into_merged_spec:
  assumes ok: "merged_table_ok (merged_cells ws)" and pos: "cell_position coord = Inr rc"
  shows "write_into_merged ws coord v =
     Inr (if v = PNone then ws else ws\<lparr>cells := (cells ws)(spec_resolve (merged_cells ws) rc \<mapsto> v)\<rparr>)"
proof (cases "find (\<lambda>rng. range_contains rng rc) (merged_cells ws)")
  case None
  then have "\<forall>rng\<in>set (merged_cells ws). \<not> range_contains rng rc"
    by (simp add: find_None_iff)
  then have "\<not> is_merged_cell ws rc" by (rule outside_not_merged_cell)
  then show ?thesis using None pos
    by (simp add: write_into_merged_def loop_find [OF pos] spec_resolve_def ws_setitem_at)
next
  case (Some rng)
  then have rng: "rng \<in> set (merged_cells ws)" "range_contains rng rc"
    using find_in_table by fastforce+
  have "\<not> is_merged_cell ws (anchor rng)"
    using anchor_not_merged_cell [OF ok rng] .
  then show ?thesis using Some
    by (simp add: write_into_merged_def loop_find [OF pos] spec_resolve_def
        write_anchor [OF table_ok_valid [OF ok rng(1)]])
qed

lemma spec_resolve_inside:
  assumes "merged_table_ok rs" "rng \<in> set rs" "range_contains rng rc"
  shows "spec_resolve rs rc = anchor rng"
proof -
  from assms(2,3) obtain r where r: "find (\<lambda>rng. range_contains rng rc) rs = Some r"
    by (cases "find (\<lambda>rng. range_contains rng rc) rs") (auto simp: find_None_iff)
  then have "r \<in> set rs" "range_contains r rc" using find_in_table by fastforce+
  then have "r = rng" using table_ok_unique assms by blast
  with r show ?thesis by (simp add: spec_resolve_def)
qed

lemma spec_resolve_outside:
  "\<forall>rng\<in>set rs. \<not> range_contains rng rc \<Longrightarrow> spec_resolve rs rc = rc"
  by (simp add: spec_resolve_def find_None_iff [THEN iffD2])


section \<open>The result of \<^verbatim>\<open>populate_fiche\<close>\<close>

lemma map_sum_Inl_snd: "map_sum id snd r = Inl e \<Longrightarrow> r = Inl e"
  by (cases r) auto

lemma not_isl_populate:
  assumes "\<not> isl (r :: error + (workbook \<times> string))"
  obtains w n where "r = Inr (w, n)"
  using assms by (cases r) auto

lemma populate_file_name:
  assumes "populate_fiche conv df_gen df_lines wb row_index max_plan = Inr (wb', name)"
    and "iloc df_gen row_index = Inr row"
  shows "name = file_name row"
  using assms
  by (auto simp: populate_fiche_def err_bind_def split: if_splits sum.splits option.splits)

lemma iloc_ex_general:
  "iloc (ex_general a b) 0 =
     Inr (zip [''Nom du client'', col_numero_of, col_koncile_id, col_date_creation, ''Nom du plan'']
              [PStr ''ACME'', a, PStr ''K-42'', b, PStr ''P-7''])"
  by (simp add: iloc_def ex_general_def)


subsection \<open>The header fields\<close>

lemma apply_writes_Nil [simp]: "apply_writes m [] = m"
  by (simp add: apply_writes_def)

lemma apply_writes_Cons [simp]: "apply_writes m ((p, v) # ws) = apply_writes (m(p \<mapsto> v)) ws"
  by (simp add: apply_writes_def)

lemma apply_writes_append: "apply_writes m (xs @ ys) = apply_writes (apply_writes m xs) ys"
  by (simp add: apply_writes_def)

lemma apply_writes_other: "p \<notin> fst ` set ws \<Longrightarrow> apply_writes m ws p = m p"
  by (induction ws arbitrary: m) auto

lemma apply_writes_member:
  "distinct (map fst ws) \<Longrightarrow> (p, v) \<in> set ws \<Longrightarrow> apply_writes m ws p = Some v"
proof (induction ws arbitrary: m)
  case Nil
  then show ?case by simp
next
  case (Cons w ws)
  obtain q u where w: "w = (q, u)" by (cases w)
  show ?case
  proof (cases "(p, v) \<in> set ws")
    case True
    then show ?thesis using Cons w by simp
  next
    case False
    with Cons.prems w have e: "q = p" "u = v" by auto
    with Cons.prems w have "p \<notin> fst ` set ws" by auto
    then show ?thesis using w e by (simp add: apply_writes_other)
  qed
qed

lemma write_into_merged_keeps_table:
  "write_into_merged ws coord v = Inr ws' \<Longrightarrow> merged_table_ok (merged_cells ws)
     \<Longrightarrow> cell_position coord = Inr rc \<Longrightarrow> merged_cells ws' = merged_cells ws"
  by (auto simp: write_into_merged_spec split: if_splits)

lemma write_assignments_spec:
  assumes "merged_table_ok (merged_cells ws)"
    and "\<forall>(c, v)\<in>set asg. \<exists>rc. cell_position c = Inr rc"
  shows "write_assignments ws asg =
     Inr (ws\<lparr>cells := apply_writes (cells ws) (header_writes (merged_cells ws) asg)\<rparr>)"
  using assms
proof (induction asg arbitrary: ws)
  case Nil
  then show ?case by (simp add: header_writes_def)
next
  case (Cons a asg)
  obtain c v where a: "a = (c, v)" by (cases a)
  from Cons.prems(2) a obtain rc where rc: "cell_position c = Inr rc" by auto
  have rest: "\<forall>(c, v)\<in>set asg. \<exists>rc. cell_position c = Inr rc"
    using Cons.prems(2) by simp
  note w = write_into_merged_spec [OF Cons.prems(1) rc, of v]
  show ?case
  proof (cases "v = PNone")
    case True
    then show ?thesis
      using Cons.IH [OF Cons.prems(1) rest] a w
      by (simp add: err_bind_def header_writes_def)
  next
    case False
    let ?ws' = "ws\<lparr>cells := (cells ws)(spec_resolve (merged_cells ws) rc \<mapsto> v)\<rparr>"
    have ok': "merged_table_ok (merged_cells ?ws')" using Cons.prems(1) by simp
    have hw: "header_writes (merged_cells ws) (a # asg)
        = (spec_resolve (merged_cells ws) rc, v) # header_writes (merged_cells ws) asg"
      using a False rc by (simp add: header_writes_def target_def)
    have "write_assignments ws (a # asg) = write_assignments ?ws' asg"
      using a w False by (simp add: err_bind_def)
    also have "\<dots> = Inr (?ws'\<lparr>cells := apply_writes (cells ?ws') (header_writes (merged_cells ?ws') asg)\<rparr>)"
      by (rule Cons.IH [OF ok' rest])
    also have "\<dots> = Inr (ws\<lparr>cells := apply_writes (cells ws) (header_writes (merged_cells ws) (a # asg))\<rparr>)"
      unfolding hw by simp
    finally show ?thesis .
  qed
qed

subsection \<open>The measurement grid\<close>

lemma slot_cases: "(i::nat) < 6 \<Longrightarrow> i = 0 \<or> i = 1 \<or> i = 2 \<or> i = 3 \<or> i = 4 \<or> i = 5"
  by arith

lemmas position_defs = cell_position_def strip_dollar_def is_letter_def is_digit_def
  int_of_digits_def column_index_from_string_def letter_index_def

lemma plan_cells_pos:
  "i < 6 \<Longrightarrow> py_index plan_cells i = Inr (plan_cells ! i) \<and> cell_position (plan_cells ! i) = Inr (9, 7 + 2 * i)"
  by (drule slot_cases) (auto simp: py_index_def plan_cells_def position_defs)

lemma plus_cells_pos:
  "i < 6 \<Longrightarrow> py_index plus_cells i = Inr (plus_cells ! i) \<and> cell_position (plus_cells ! i) = Inr (10, 7 + 2 * i)"
  by (drule slot_cases) (auto simp: py_index_def plus_cells_def position_defs)

lemma minus_cells_pos:
  "i < 6 \<Longrightarrow> py_index minus_cells i = Inr (minus_cells ! i) \<and> cell_position (minus_cells ! i) = Inr (11, 7 + 2 * i)"
  by (drule slot_cases) (auto simp: py_index_def minus_cells_def position_defs)

lemma moyenne_cells_pos:
  "i < 6 \<Longrightarrow> py_index moyenne_cells i = Inr (moyenne_cells ! i) \<and> cell_position (moyenne_cells ! i) = Inr (12, 7 + 2 * i)"
  by (drule slot_cases) (auto simp: py_index_def moyenne_cells_def position_defs)

lemma tools_cells_pos:
  "i < 6 \<Longrightarrow> py_index tools_cells i = Inr (tools_cells ! i) \<and> cell_position (tools_cells ! i) = Inr (14, 6 + 2 * i)"
  by (drule slot_cases) (auto simp: py_index_def tools_cells_def position_defs)

lemma grid_cell_not_merged:
  assumes "grid_unmerged (merged_cells ws)" "c \<in> set grid_cells" "cell_position c = Inr rc"
  shows "\<not> is_merged_cell ws rc"
  using assms by (auto simp: grid_unmerged_def list_all_iff is_merged_cell_def list_ex_iff)

lemma is_merged_cell_cells [simp]: "is_merged_cell (ws\<lparr>cells := m\<rparr>) rc = is_merged_cell ws rc"
  by (simp add: is_merged_cell_def)

lemma write_if_notna_spec:
  assumes "py_index cs i = Inr (cs ! i) \<and> cell_position (cs ! i) = Inr rc" and "\<not> is_merged_cell ws rc"
  shows "write_if_notna ws cs i v
     = Inr (ws\<lparr>cells := apply_writes (cells ws) (if pd_notna v then [(rc, v)] else [])\<rparr>)"
  using assms by (simp add: write_if_notna_def err_bind_def ws_setitem_at)

lemma grid_lengths:
  "length plan_cells = 6" "length plus_cells = 6" "length minus_cells = 6"
  "length moyenne_cells = 6" "length tools_cells = 6"
  by (simp_all add: plan_cells_def plus_cells_def minus_cells_def moyenne_cells_def tools_cells_def)

lemma nth_grid_cells:
  assumes "i < 6"
  shows "plan_cells ! i \<in> set grid_cells" "plus_cells ! i \<in> set grid_cells"
    "minus_cells ! i \<in> set grid_cells" "moyenne_cells ! i \<in> set grid_cells"
    "tools_cells ! i \<in> set grid_cells"
proof -
  have "plan_cells ! i \<in> set plan_cells" "plus_cells ! i \<in> set plus_cells"
    "minus_cells ! i \<in> set minus_cells" "moyenne_cells ! i \<in> set moyenne_cells"
    "tools_cells ! i \<in> set tools_cells"
    using assms by (simp_all add: grid_lengths)
  then show "plan_cells ! i \<in> set grid_cells" "plus_cells ! i \<in> set grid_cells"
    "minus_cells ! i \<in> set grid_cells" "moyenne_cells ! i \<in> set grid_cells"
    "tools_cells ! i \<in> set grid_cells"
    by (simp_all add: grid_cells_def)
qed

lemma map_of_zip_map:
  "inj_on f (insert k (set ks)) \<Longrightarrow>
     map_of (zip (map f ks) (map g ks)) (f k) = (if k \<in> set ks then Some (g k) else None)"
proof (induction ks)
  case Nil
  then show ?case by simp
next
  case (Cons a ks)
  have inj: "inj_on f (insert k (set ks))"
    using Cons.prems by (rule inj_on_subset) auto
  show ?case
  proof (cases "a = k")
    case True
    then show ?thesis by simp
  next
    case False
    then have "f a \<noteq> f k" using Cons.prems by (auto simp: inj_on_def)
    then show ?thesis using Cons.IH [OF inj] False by auto
  qed
qed

lemma series_get_absent: "k \<notin> set ks \<Longrightarrow> series_get (zip ks vs) k = PNone"
proof -
  assume "k \<notin> set ks"
  then have "k \<notin> fst ` set (zip ks vs)"
    by (auto dest: set_zip_leftD)
  then have "map_of (zip ks vs) k = None" by (simp add: map_of_eq_None_iff)
  then show ?thesis by (simp add: series_get_def)
qed

lemma renamed_values:
  "renamed col_cotes_plan = ''cote''" "renamed col_tolerance_sup = ''plus''"
  "renamed col_tolerance_inf = ''minus''" "renamed col_cotes_moyennes = ''moy''"
  "renamed col_outil = ''outil''"
  by (simp_all add: renamed_def col_map_def)

lemma renamed_inj: "inj_on renamed (set (map fst col_map))"
  by (simp add: inj_on_def renamed_def col_map_def)

lemma line_record_value:
  assumes k: "k \<in> set (map fst col_map)" and i: "i < length (rows df)"
  shows "series_get
           (zip (columns (df_rename (df_select df (filter (\<lambda>c. c \<in> set (columns df)) (map fst col_map))) col_map))
                (rows (df_rename (df_select df (filter (\<lambda>c. c \<in> set (columns df)) (map fst col_map))) col_map) ! i))
           (renamed k)
         = line_value df k i"
proof -
  let ?keep = "filter (\<lambda>c. c \<in> set (columns df)) (map fst col_map)"
  let ?g = "series_get (zip (columns df) (rows df ! i))"
  have inj: "inj_on renamed (insert k (set ?keep))"
    using renamed_inj k by (rule_tac inj_on_subset) auto
  have cols: "columns (df_rename (df_select df ?keep) col_map) = map renamed ?keep"
    by (simp add: df_rename_def df_select_def renamed_def)
  have row: "rows (df_rename (df_select df ?keep) col_map) ! i = map ?g ?keep"
    using i by (simp add: df_rename_def df_select_def)
  have "map_of (zip (map renamed ?keep) (map ?g ?keep)) (renamed k)
      = (if k \<in> set ?keep then Some (?g k) else None)"
    using inj by (rule map_of_zip_map)
  moreover have "k \<in> set ?keep \<longleftrightarrow> k \<in> set (columns df)" using k by auto
  moreover have "k \<notin> set (columns df) \<Longrightarrow> ?g k = PNone" by (rule series_get_absent)
  ultimately show ?thesis
    unfolding cols row line_value_def by (auto simp: series_get_def)
qed

lemma write_slot_spec:
  assumes um: "grid_unmerged (merged_cells ws)" and i6: "i < 6" and il: "i < length (rows df)"
  shows "write_slot ws (df_rename (df_select df (filter (\<lambda>c. c \<in> set (columns df)) (map fst col_map))) col_map) i
     = Inr (ws\<lparr>cells := apply_writes (cells ws) (slot_writes df i)\<rparr>)"
proof -
  let ?dfL = "df_rename (df_select df (filter (\<lambda>c. c \<in> set (columns df)) (map fst col_map))) col_map"
  let ?r = "zip (columns ?dfL) (rows ?dfL ! i)"
  have len: "length (rows ?dfL) = length (rows df)"
    by (simp add: df_rename_def df_select_def)
  have row: "iloc ?dfL (int i) = Inr ?r"
    using il len by (simp add: iloc_def Let_def)
  have k: "col_cotes_plan \<in> set (map fst col_map)" "col_tolerance_sup \<in> set (map fst col_map)"
    "col_tolerance_inf \<in> set (map fst col_map)" "col_cotes_moyennes \<in> set (map fst col_map)"
    "col_outil \<in> set (map fst col_map)"
    by (simp_all add: col_map_def)
  have v: "series_get ?r ''cote'' = line_value df col_cotes_plan i"
    "series_get ?r ''plus'' = line_value df col_tolerance_sup i"
    "series_get ?r ''minus'' = line_value df col_tolerance_inf i"
    "series_get ?r ''moy'' = line_value df col_cotes_moyennes i"
    "series_get ?r ''outil'' = line_value df col_outil i"
    using line_record_value [OF k(1) il] line_record_value [OF k(2) il]
      line_record_value [OF k(3) il] line_record_value [OF k(4) il]
      line_record_value [OF k(5) il]
    unfolding renamed_values by blast+
  have nm: "\<not> is_merged_cell ws (9, 7 + 2 * i)" "\<not> is_merged_cell ws (10, 7 + 2 * i)"
    "\<not> is_merged_cell ws (11, 7 + 2 * i)" "\<not> is_merged_cell ws (12, 7 + 2 * i)"
    "\<not> is_merged_cell ws (14, 6 + 2 * i)"
    using grid_cell_not_merged [OF um] nth_grid_cells [OF i6] plan_cells_pos [OF i6]
      plus_cells_pos [OF i6] minus_cells_pos [OF i6] moyenne_cells_pos [OF i6] tools_cells_pos [OF i6]
    by blast+
  define w1 where "w1 = ws\<lparr>cells := apply_writes (cells ws) (slot_write df i 9 7 col_cotes_plan)\<rparr>"
  define w2 where "w2 = w1\<lparr>cells := apply_writes (cells w1) (slot_write df i 10 7 col_tolerance_sup)\<rparr>"
  define w3 where "w3 = w2\<lparr>cells := apply_writes (cells w2) (slot_write df i 11 7 col_tolerance_inf)\<rparr>"
  define w4 where "w4 = w3\<lparr>cells := apply_writes (cells w3) (slot_write df i 12 7 col_cotes_moyennes)\<rparr>"
  define w5 where "w5 = w4\<lparr>cells := apply_writes (cells w4) (slot_write df i 14 6 col_outil)\<rparr>"
  have s1: "write_if_notna ws plan_cells i (line_value df col_cotes_plan i) = Inr w1"
    unfolding w1_def slot_write_def
    by (rule write_if_notna_spec [OF plan_cells_pos [OF i6] nm(1)])
  have s2: "write_if_notna w1 plus_cells i (line_value df col_tolerance_sup i) = Inr w2"
    unfolding w2_def slot_write_def
    by (rule write_if_notna_spec [OF plus_cells_pos [OF i6]]) (simp add: w1_def nm)
  have s3: "write_if_notna w2 minus_cells i (line_value df col_tolerance_inf i) = Inr w3"
    unfolding w3_def slot_write_def
    by (rule write_if_notna_spec [OF minus_cells_pos [OF i6]]) (simp add: w1_def w2_def nm)
  have s4: "write_if_notna w3 moyenne_cells i (line_value df col_cotes_moyennes i) = Inr w4"
    unfolding w4_def slot_write_def
    by (rule write_if_notna_spec [OF moyenne_cells_pos [OF i6]]) (simp add: w1_def w2_def w3_def nm)
  have s5: "write_if_notna w4 tools_cells i (line_value df col_outil i) = Inr w5"
    unfolding w5_def slot_write_def
    by (rule write_if_notna_spec [OF tools_cells_pos [OF i6]]) (simp add: w1_def w2_def w3_def w4_def nm)
  have "write_slot ws ?dfL i = Inr w5"
    unfolding write_slot_def row err_bind_def Let_def v s1 s2 s3 s4 s5 sum.case ..
  also have "w5 = ws\<lparr>cells := apply_writes (cells ws) (slot_writes df i)\<rparr>"
    by (simp add: w5_def w4_def w3_def w2_def w1_def slot_writes_def apply_writes_append)
  finally show ?thesis .
qed

lemma write_slots_spec:
  assumes um: "grid_unmerged (merged_cells ws)"
    and sl: "\<forall>i\<in>set is. i < 6 \<and> i < length (rows df)"
  shows "write_slots ws (df_rename (df_select df (filter (\<lambda>c. c \<in> set (columns df)) (map fst col_map))) col_map) is
     = Inr (ws\<lparr>cells := apply_writes (cells ws) (concat (map (slot_writes df) is))\<rparr>)"
  using assms
proof (induction "is" arbitrary: ws)
  case Nil
  then show ?case by simp
next
  case (Cons i "is")
  let ?dfL = "df_rename (df_select df (filter (\<lambda>c. c \<in> set (columns df)) (map fst col_map))) col_map"
  let ?w = "ws\<lparr>cells := apply_writes (cells ws) (slot_writes df i)\<rparr>"
  have i: "i < 6" "i < length (rows df)" using Cons.prems(2) by simp_all
  have um': "grid_unmerged (merged_cells ?w)" using Cons.prems(1) by simp
  have rest: "\<forall>i\<in>set is. i < 6 \<and> i < length (rows df)" using Cons.prems(2) by simp
  have "write_slots ws ?dfL (i # is) = write_slots ?w ?dfL is"
    by (simp add: write_slot_spec [OF Cons.prems(1) i] err_bind_def)
  also have "\<dots> = Inr (?w\<lparr>cells := apply_writes (cells ?w) (concat (map (slot_writes df) is))\<rparr>)"
    by (rule Cons.IH [OF um' rest])
  also have "\<dots> = Inr (ws\<lparr>cells := apply_writes (cells ws) (concat (map (slot_writes df) (i # is)))\<rparr>)"
    by (simp add: apply_writes_append)
  finally show ?case .
qed

lemma slot_writes_no_columns:
  assumes "filter (\<lambda>c. c \<in> set (columns df)) (map fst col_map) = []"
  shows "slot_writes df i = []"
proof -
  have "\<forall>c\<in>set (map fst col_map). c \<notin> set (columns df)"
    using assms by (simp only: filter_empty_conv) 
  then have "\<forall>c\<in>set (map fst col_map). line_value df c i = PNone"
    by (simp add: line_value_def series_get_absent)
  then show ?thesis
    by (simp add: slot_writes_def slot_write_def col_map_def pd_notna_def)
qed

lemma write_lines_spec:
  assumes um: "grid_unmerged (merged_cells ws)" and cap: "max_plan \<le> 6"
  shows "write_lines ws df max_plan
     = Inr (ws\<lparr>cells := apply_writes (cells ws)
             (grid_writes df (nat (min max_plan (int (length (rows df))))))\<rparr>)"
proof (cases "filter (\<lambda>c. c \<in> set (columns df)) (map fst col_map) = []")
  case True
  then have "grid_writes df k = []" for k
    by (simp add: grid_writes_def slot_writes_no_columns)
  then show ?thesis using True by (simp add: write_lines_def)
next
  case False
  let ?dfL = "df_rename (df_select df (filter (\<lambda>c. c \<in> set (columns df)) (map fst col_map))) col_map"
  have len: "length (rows ?dfL) = length (rows df)"
    by (simp add: df_rename_def df_select_def)
  have "\<forall>i\<in>set [0 ..< nat (min max_plan (int (length (rows df))))]. i < 6 \<and> i < length (rows df)"
    using cap by auto
  from write_slots_spec [OF um this] show ?thesis
    using False by (simp add: write_lines_def Let_def len grid_writes_def)
qed


lemma slot_write_keys: "(p, v) \<in> set (slot_write df i r c0 col) \<Longrightarrow> p = (r, c0 + 2 * i)"
  by (auto simp: slot_write_def split: if_splits)

lemma grid_origin_mem:
  "(9, 7, col_cotes_plan) \<in> set grid_origin" "(10, 7, col_tolerance_sup) \<in> set grid_origin"
  "(11, 7, col_tolerance_inf) \<in> set grid_origin" "(12, 7, col_cotes_moyennes) \<in> set grid_origin"
  "(14, 6, col_outil) \<in> set grid_origin"
  by (simp_all add: grid_origin_def)

lemma slot_writes_keys:
  assumes "(p, v) \<in> set (slot_writes df i)"
  shows "\<exists>r c0 col. (r, c0, col) \<in> set grid_origin \<and> p = (r, c0 + 2 * i)"
proof -
  from assms consider
      "(p, v) \<in> set (slot_write df i 9 7 col_cotes_plan)"
    | "(p, v) \<in> set (slot_write df i 10 7 col_tolerance_sup)"
    | "(p, v) \<in> set (slot_write df i 11 7 col_tolerance_inf)"
    | "(p, v) \<in> set (slot_write df i 12 7 col_cotes_moyennes)"
    | "(p, v) \<in> set (slot_write df i 14 6 col_outil)"
    unfolding slot_writes_def set_append Un_iff by blast
  then show ?thesis
    using grid_origin_mem by cases (blast dest: slot_write_keys)+
qed


lemma grid_origin_cases:
  assumes "(r, c0, col) \<in> set grid_origin"
  obtains "r = 9" "c0 = 7" "col = col_cotes_plan"
    | "r = 10" "c0 = 7" "col = col_tolerance_sup"
    | "r = 11" "c0 = 7" "col = col_tolerance_inf"
    | "r = 12" "c0 = 7" "col = col_cotes_moyennes"
    | "r = 14" "c0 = 6" "col = col_outil"
  using assms unfolding grid_origin_def by fastforce




lemma grid_writes_keys:
  assumes "(p, v) \<in> set (grid_writes df k)"
  shows "\<exists>r c0 col i. (r, c0, col) \<in> set grid_origin \<and> i < k \<and> p = (r, c0 + 2 * i)"
proof -
  from assms obtain i where i: "i < k" "(p, v) \<in> set (slot_writes df i)"
    by (auto simp: grid_writes_def)
  from slot_writes_keys [OF i(2)] i(1) show ?thesis by blast
qed

subsection \<open>Header and grid do not meet\<close>

lemma header_cells_pos:
  "c \<in> set header_cells \<Longrightarrow> \<exists>q. cell_position c = Inr q \<and> fst q \<le> 8"
  by (auto simp: header_cells_def position_defs)

lemma grid_origin_rows:
  assumes "(r, c0, col) \<in> set grid_origin"
  shows "9 \<le> r"
  using assms by (cases rule: grid_origin_cases) simp_all



lemma grid_origin_cell:
  assumes "(r, c0, col) \<in> set grid_origin" and i: "i < 6"
  shows "\<exists>c\<in>set grid_cells. cell_position c = Inr (r, c0 + 2 * i)"
  using assms(1)
proof (cases rule: grid_origin_cases)
  case 1
  then show ?thesis using plan_cells_pos [OF i] nth_grid_cells(1) [OF i] by blast
next
  case 2
  then show ?thesis using plus_cells_pos [OF i] nth_grid_cells(2) [OF i] by blast
next
  case 3
  then show ?thesis using minus_cells_pos [OF i] nth_grid_cells(3) [OF i] by blast
next
  case 4
  then show ?thesis using moyenne_cells_pos [OF i] nth_grid_cells(4) [OF i] by blast
next
  case 5
  then show ?thesis using tools_cells_pos [OF i] nth_grid_cells(5) [OF i] by blast
qed

lemma grid_cell_outside:
  assumes "grid_unmerged rs" "c \<in> set grid_cells" "cell_position c = Inr p"
  shows "\<forall>rng\<in>set rs. \<not> range_contains rng p"
  using assms by (auto simp: grid_unmerged_def list_all_iff)


lemma header_target_not_grid:
  assumes um: "grid_unmerged rs" and hc: "hc \<in> set header_cells"
    and o: "(r, c0, col) \<in> set grid_origin" and i: "i < 6"
  shows "target rs hc \<noteq> (r, c0 + 2 * i)"
proof
  assume e: "target rs hc = (r, c0 + 2 * i)"
  from header_cells_pos [OF hc] obtain q where q: "cell_position hc = Inr q" "fst q \<le> 8" by blast
  from grid_origin_cell [OF o i] obtain c where c: "c \<in> set grid_cells" "cell_position c = Inr (r, c0 + 2 * i)"
    by blast
  note out = grid_cell_outside [OF um c]
  show False
  proof (cases "find (\<lambda>rng. range_contains rng q) rs")
    case None
    then have "target rs hc = q" using q by (simp add: target_def spec_resolve_def)
    with e q(2) grid_origin_rows [OF o] show False by auto
  next
    case (Some rng)
    then have rng: "rng \<in> set rs" "range_contains rng q" using find_in_table by fastforce+
    have "target rs hc = anchor rng" using q Some by (simp add: target_def spec_resolve_def)
    with e contains_anchor [OF rng(2)] have "range_contains rng (r, c0 + 2 * i)" by simp
    with out rng(1) show False by blast
  qed
qed

lemma header_writes_keys:
  "(p, v) \<in> set (header_writes rs asg) \<Longrightarrow> \<exists>c. (c, v) \<in> set asg \<and> v \<noteq> PNone \<and> p = target rs c"
  by (auto simp: header_writes_def)

lemma header_writes_at:
  assumes d: "distinct (map (target rs) (map fst asg))" and m: "(c, v) \<in> set asg"
  shows "apply_writes m0 (header_writes rs asg) (target rs c)
     = (if v = PNone then m0 (target rs c) else Some v)"
proof (cases "v = PNone")
  case True
  have inj: "inj_on (target rs \<circ> fst) (set asg)"
    using d by (simp add: distinct_map)
  have "target rs c \<notin> fst ` set (header_writes rs asg)"
  proof
    assume "target rs c \<in> fst ` set (header_writes rs asg)"
    then obtain v' where "(target rs c, v') \<in> set (header_writes rs asg)" by auto
    from header_writes_keys [OF this] obtain c' where
      c': "(c', v') \<in> set asg" "v' \<noteq> PNone" "target rs c = target rs c'" by blast
    from inj_onD [OF inj, of "(c, v)" "(c', v')"] m c'(1,3) have "(c, v) = (c', v')" by simp
    with True c'(2) show False by simp
  qed
  then show ?thesis using True by (simp add: apply_writes_other)
next
  case False
  have "distinct (map (target rs \<circ> fst) (filter (\<lambda>(c, v). v \<noteq> PNone) asg))"
    using d by (simp add: distinct_map_filter)
  moreover have "map fst (header_writes rs asg) = map (target rs \<circ> fst) (filter (\<lambda>(c, v). v \<noteq> PNone) asg)"
    by (simp add: header_writes_def case_prod_beta comp_def)
  ultimately have "distinct (map fst (header_writes rs asg))" by simp
  moreover have "(target rs c, v) \<in> set (header_writes rs asg)"
    using m False by (force simp: header_writes_def)
  ultimately show ?thesis using False by (simp add: apply_writes_member)
qed

lemma assignments_value:
  assumes "creation_date conv row = Inr d"
  shows "assignments conv row = Inr
       [(''M1'', get_val row ''Nom du client''),
        (''T1'', get_val row col_numero_of),
        (''K2'', get_val row ''Nom du plan''),
        (''T2'', get_val row ''Indice plan''),
        (''X2'', d),
        (''X4'', get_val row col_matiere),
        (''X5'', get_val row ''Couleur''),
        (''X6'', get_val row col_tolerance_generale),
        (''X7'', get_val row ''RA mini''),
        (''X8'', get_val row ''Cassage Angles Vifs'')]"
  unfolding assignments_def assms err_bind_def sum.case ..

lemma assignments_cells:
  assumes "assignments conv row = Inr asg"
  shows "map fst asg = header_cells"
proof -
  from assms obtain d where d: "creation_date conv row = Inr d"
    by (cases "creation_date conv row") (auto simp: assignments_def err_bind_def)
  from assms show ?thesis unfolding assignments_value [OF d] by (auto simp: header_cells_def)
qed

lemma assignments_members:
  assumes "creation_date conv row = Inr d" and "assignments conv row = Inr asg"
  shows "(''X2'', d) \<in> set asg" and "\<forall>(c, col)\<in>set header_layout. (c, get_val row col) \<in> set asg"
  using assms(2) unfolding assignments_value [OF assms(1)]
  by (auto simp: header_layout_def)

subsection \<open>The document that is returned\<close>

lemma populate_fiche_spec:
  assumes tok: "template_ok ws" and wb: "wb sheet_fiche = Some ws"
    and ne: "\<not> df_empty df_gen" and row: "iloc df_gen row_index = Inr row"
    and asg: "assignments conv row = Inr asg" and cap: "max_plan \<le> 6"
  shows "populate_fiche conv df_gen df_lines wb row_index max_plan =
     Inr (wb(sheet_fiche \<mapsto> ws\<lparr>cells :=
            apply_writes (apply_writes (cells ws) (header_writes (merged_cells ws) asg))
              (grid_writes df_lines (nat (min max_plan (int (length (rows df_lines))))))\<rparr>),
          file_name row)"
proof -
  let ?w1 = "ws\<lparr>cells := apply_writes (cells ws) (header_writes (merged_cells ws) asg)\<rparr>"
  from tok have ok: "merged_table_ok (merged_cells ws)" and um: "grid_unmerged (merged_cells ws)"
    by (simp_all add: template_ok_def)
  have "\<forall>(c, v)\<in>set asg. \<exists>rc. cell_position c = Inr rc"
  proof (clarify)
    fix c v assume "(c, v) \<in> set asg"
    then have "c \<in> set (map fst asg)" by force
    then have "c \<in> set header_cells" by (simp only: assignments_cells [OF asg])
    from header_cells_pos [OF this] show "\<exists>rc. cell_position c = Inr rc" by blast
  qed
  from write_assignments_spec [OF ok this]
  have h: "write_assignments ws asg = Inr ?w1" .
  have um1: "grid_unmerged (merged_cells ?w1)" using um by simp
  have g: "write_lines ?w1 df_lines max_plan
     = Inr (?w1\<lparr>cells := apply_writes (cells ?w1)
             (grid_writes df_lines (nat (min max_plan (int (length (rows df_lines))))))\<rparr>)"
    by (rule write_lines_spec [OF um1 cap])
  show ?thesis
    using ne row wb asg h g by (simp add: populate_fiche_def err_bind_def)
qed


lemma final_header_cell:
  assumes um: "grid_unmerged (merged_cells ws)" and asg: "map fst asg = header_cells"
    and dist: "header_targets_distinct ws" and m: "(c, v) \<in> set asg" and k: "k \<le> 6"
  shows "shown_at (ws\<lparr>cells := apply_writes (apply_writes (cells ws) (header_writes (merged_cells ws) asg))
              (grid_writes df k)\<rparr>) c
     = (if v = PNone then shown_at ws c else Some v)"
proof -
  from m have "c \<in> set (map fst asg)" by force
  then have hc: "c \<in> set header_cells" by (simp only: asg)
  have "target (merged_cells ws) c \<notin> fst ` set (grid_writes df k)"
  proof
    assume "target (merged_cells ws) c \<in> fst ` set (grid_writes df k)"
    then obtain u where "(target (merged_cells ws) c, u) \<in> set (grid_writes df k)" by auto
    from grid_writes_keys [OF this] obtain r c0 col i where
      o: "(r, c0, col) \<in> set grid_origin" "i < k" "target (merged_cells ws) c = (r, c0 + 2 * i)"
      by blast
    from o(2) k have "i < 6" by simp
    from header_target_not_grid [OF um hc o(1) this] o(3) show False by simp
  qed
  then have "apply_writes (apply_writes (cells ws) (header_writes (merged_cells ws) asg))
        (grid_writes df k) (target (merged_cells ws) c)
      = apply_writes (cells ws) (header_writes (merged_cells ws) asg) (target (merged_cells ws) c)"
    by (rule apply_writes_other)
  moreover have "distinct (map (target (merged_cells ws)) (map fst asg))"
    using dist by (simp only: asg header_targets_distinct_def)
  ultimately show ?thesis
    using header_writes_at [OF _ m, of "merged_cells ws" "cells ws"]
    by (simp add: shown_at_def)
qed

lemma capacity_nat: "max_plan \<le> 6 \<Longrightarrow> nat (min max_plan (int n)) \<le> 6"
  by simp



lemma creation_date_assignments:
  "creation_date conv row = Inr d \<Longrightarrow> \<exists>asg. assignments conv row = Inr asg"
  by (simp add: assignments_value)





lemma creation_date_converted:
  assumes "pd_notna (series_get row col_date_creation)"
    and "to_datetime conv (series_get row col_date_creation) = Inr (PTimestamp t)"
  shows "creation_date conv row = Inr (PDate (ts_date t))"
  using assms
  by (simp add: creation_date_def get_val_def pd_notna_def err_bind_def date_of_def)



subsection \<open>Two copies of one template\<close>

lemma same_template_ok2: "same_template ws1 ws2 \<Longrightarrow> merged_table_ok (merged_cells ws2)"
  by (auto simp: same_template_def merged_table_ok_def list_all_iff)

lemma same_template_cells:
  "same_template ws1 ws2 \<Longrightarrow> same_template (ws1\<lparr>cells := m\<rparr>) (ws2\<lparr>cells := m\<rparr>)"
  by (simp add: same_template_def)

lemma err_bind_rel:
  assumes "rel_sum (=) R m1 m2" and "\<And>x y. R x y \<Longrightarrow> rel_sum (=) S (f x) (g y)"
  shows "rel_sum (=) S (err_bind m1 f) (err_bind m2 g)"
  using assms by (cases m1; cases m2) (auto simp: err_bind_def)

lemma is_merged_cell_set:
  "set (merged_cells ws1) = set (merged_cells ws2) \<Longrightarrow> is_merged_cell ws1 rc = is_merged_cell ws2 rc"
  by (simp add: is_merged_cell_def list_ex_iff)

lemma ws_setitem_rel:
  assumes "same_template ws1 ws2"
  shows "rel_sum (=) same_template (ws_setitem ws1 c v) (ws_setitem ws2 c v)"
proof (cases "cell_position c")
  case (Inl e)
  then show ?thesis by (simp add: ws_setitem_def err_bind_def)
next
  case (Inr rc)
  have "is_merged_cell ws1 rc = is_merged_cell ws2 rc"
    using assms by (intro is_merged_cell_set) (simp add: same_template_def)
  moreover have "same_template (ws1\<lparr>cells := (cells ws1)(rc \<mapsto> v)\<rparr>) (ws2\<lparr>cells := (cells ws2)(rc \<mapsto> v)\<rparr>)"
    using assms by (simp add: same_template_def)
  ultimately show ?thesis by (simp add: ws_setitem_at [OF Inr])
qed

lemma loop_invalid:
  "cell_position c = Inl e \<Longrightarrow> write_into_merged_loop ws rs c v = Inl e"
  by (cases rs) (simp_all add: ws_setitem_def coord_in_def err_bind_def)

lemma spec_resolve_set:
  assumes "merged_table_ok rs1" "set rs1 = set rs2" 
  shows "spec_resolve rs1 rc = spec_resolve rs2 rc"
proof (cases "\<exists>rng\<in>set rs1. range_contains rng rc")
  case True
  then obtain rng where rng: "rng \<in> set rs1" "range_contains rng rc" by blast
  have ok2: "merged_table_ok rs2"
    using assms by (auto simp: merged_table_ok_def list_all_iff)
  from rng assms(2) have "rng \<in> set rs2" by simp
  then show ?thesis
    using spec_resolve_inside [OF assms(1) rng] spec_resolve_inside [OF ok2 _ rng(2)] by simp
next
  case False
  then show ?thesis using assms(2) by (simp add: spec_resolve_outside)
qed

lemma write_into_merged_rel:
  assumes "same_template ws1 ws2"
  shows "rel_sum (=) same_template (write_into_merged ws1 c v) (write_into_merged ws2 c v)"
proof (cases "cell_position c")
  case (Inl e)
  then show ?thesis using assms by (simp add: write_into_merged_def loop_invalid)
next
  case (Inr rc)
  from assms have ok1: "merged_table_ok (merged_cells ws1)" and s: "set (merged_cells ws1) = set (merged_cells ws2)"
    and c: "cells ws1 = cells ws2"
    by (simp_all add: same_template_def)
  note ok2 = same_template_ok2 [OF assms]
  have "spec_resolve (merged_cells ws1) rc = spec_resolve (merged_cells ws2) rc"
    by (rule spec_resolve_set [OF ok1 s])
  then show ?thesis
    using assms c
    by (simp add: write_into_merged_spec [OF ok1 Inr] write_into_merged_spec [OF ok2 Inr] same_template_def)
qed

lemma write_assignments_rel:
  "same_template ws1 ws2 \<Longrightarrow>
     rel_sum (=) same_template (write_assignments ws1 asg) (write_assignments ws2 asg)"
proof (induction asg arbitrary: ws1 ws2)
  case Nil
  then show ?case by simp
next
  case (Cons a asg)
  obtain c v where a: "a = (c, v)" by (cases a)
  show ?case unfolding a write_assignments.simps
    by (rule err_bind_rel [where R = same_template, OF write_into_merged_rel [OF Cons.prems]]) (rule Cons.IH)
qed

lemma write_if_notna_rel:
  assumes "same_template ws1 ws2"
  shows "rel_sum (=) same_template (write_if_notna ws1 cs i v) (write_if_notna ws2 cs i v)"
proof (cases "pd_notna v")
  case True
  show ?thesis
  proof (cases "py_index cs i")
    case (Inl e)
    then show ?thesis using True by (simp add: write_if_notna_def err_bind_def)
  next
    case (Inr c)
    then show ?thesis using True ws_setitem_rel [OF assms] by (simp add: write_if_notna_def err_bind_def)
  qed
next
  case False
  then show ?thesis using assms by (simp add: write_if_notna_def)
qed

lemma write_slot_rel:
  assumes "same_template ws1 ws2"
  shows "rel_sum (=) same_template (write_slot ws1 dfL i) (write_slot ws2 dfL i)"
proof (cases "iloc dfL (int i)")
  case (Inl e)
  then show ?thesis by (simp add: write_slot_def err_bind_def)
next
  case (Inr r)
  have "rel_sum (=) same_template
     (err_bind (write_if_notna ws1 plan_cells i (series_get r ''cote'')) (\<lambda>ws.
      err_bind (write_if_notna ws plus_cells i (series_get r ''plus'')) (\<lambda>ws.
      err_bind (write_if_notna ws minus_cells i (series_get r ''minus'')) (\<lambda>ws.
      err_bind (write_if_notna ws moyenne_cells i (series_get r ''moy'')) (\<lambda>ws.
      write_if_notna ws tools_cells i (series_get r ''outil''))))))
     (err_bind (write_if_notna ws2 plan_cells i (series_get r ''cote'')) (\<lambda>ws.
      err_bind (write_if_notna ws plus_cells i (series_get r ''plus'')) (\<lambda>ws.
      err_bind (write_if_notna ws minus_cells i (series_get r ''minus'')) (\<lambda>ws.
      err_bind (write_if_notna ws moyenne_cells i (series_get r ''moy'')) (\<lambda>ws.
      write_if_notna ws tools_cells i (series_get r ''outil''))))))"
    by (intro err_bind_rel [where R = same_template] write_if_notna_rel) (assumption | rule assms)+
  then show ?thesis
    unfolding write_slot_def Inr err_bind_def [of "Inr r"] sum.case Let_def .
qed

lemma write_slots_rel:
  "same_template ws1 ws2 \<Longrightarrow>
     rel_sum (=) same_template (write_slots ws1 dfL sl) (write_slots ws2 dfL sl)"
proof (induction sl arbitrary: ws1 ws2)
  case Nil
  then show ?case by simp
next
  case (Cons i sl)
  show ?case unfolding write_slots.simps
    by (rule err_bind_rel [where R = same_template, OF write_slot_rel [OF Cons.prems]]) (rule Cons.IH)
qed

lemma write_lines_rel:
  "same_template ws1 ws2 \<Longrightarrow>
     rel_sum (=) same_template (write_lines ws1 df mp) (write_lines ws2 df mp)"
  by (simp add: write_lines_def Let_def write_slots_rel)

lemma written_same_sheet:
  assumes "wb1 sheet_fiche = wb2 sheet_fiche"
  shows "written (populate_fiche conv g l wb1 ri mp) = written (populate_fiche conv g l wb2 ri mp)"
  using assms
  by (auto simp: written_def populate_fiche_def err_bind_def split: sum.splits option.splits)

lemma written_same_template:
  assumes w1: "wb1 sheet_fiche = Some ws1" and w2: "wb2 sheet_fiche = Some ws2"
    and st: "same_template ws1 ws2"
  shows "written (populate_fiche conv g l wb1 ri mp) = written (populate_fiche conv g l wb2 ri mp)"
proof (cases "df_empty g")
  case True
  then show ?thesis by (simp add: populate_fiche_def)
next
  case ne: False
  show ?thesis
  proof (cases "iloc g ri")
    case (Inl e)
    then show ?thesis using ne by (simp add: populate_fiche_def err_bind_def)
  next
    case row: (Inr row)
    show ?thesis
    proof (cases "assignments conv row")
      case (Inl e)
      then show ?thesis using ne row w1 w2 by (simp add: populate_fiche_def err_bind_def)
    next
      case asg: (Inr asg)
      have "rel_sum (=) same_template
          (err_bind (write_assignments ws1 asg) (\<lambda>ws. write_lines ws l mp))
          (err_bind (write_assignments ws2 asg) (\<lambda>ws. write_lines ws l mp))"
        by (intro err_bind_rel [where R = same_template] write_assignments_rel write_lines_rel)
          (assumption | rule st)+
      then have "map_sum id cells (err_bind (write_assignments ws1 asg) (\<lambda>ws. write_lines ws l mp))
          = map_sum id cells (err_bind (write_assignments ws2 asg) (\<lambda>ws. write_lines ws l mp))"
        by (cases "err_bind (write_assignments ws1 asg) (\<lambda>ws. write_lines ws l mp)";
            cases "err_bind (write_assignments ws2 asg) (\<lambda>ws. write_lines ws l mp)")
           (auto simp: same_template_def)
      then show ?thesis
        using ne row w1 w2 asg
        by (auto simp: populate_fiche_def written_def err_bind_def split: sum.splits)
    qed
  qed
qed


subsection \<open>The example data\<close>

lemma ex_sheet_table: "merged_table_ok (merged_cells ex_sheet)"
  by (simp add: ex_sheet_def merged_table_ok_def valid_range_def ranges_disjoint_def)

lemma ex_sheet_grid: "grid_unmerged (merged_cells ex_sheet)"
  by (simp add: grid_unmerged_def grid_cells_def plan_cells_def plus_cells_def minus_cells_def
      moyenne_cells_def tools_cells_def position_defs ex_sheet_def range_contains_def)

lemma ex_sheet_headers: "header_targets_distinct ex_sheet"
  by (simp add: header_targets_distinct_def header_cells_def target_def position_defs
      spec_resolve_def range_contains_def anchor_def ex_sheet_def)

lemma ex_sheet_ok: "template_ok ex_sheet"
  by (simp add: template_ok_def ex_sheet_table ex_sheet_grid)

lemma ex_workbook_sheet: "ex_workbook sheet_fiche = Some ex_sheet"
  by (simp add: ex_workbook_def)

lemma ex_general_not_empty: "\<not> df_empty (ex_general a b)"
  by (simp add: df_empty_def ex_general_def)









section \<open>The claims\<close>



text \<open>
  C2. When the general table has no row, \<^verbatim>\<open>populate_fiche\<close> raises the
  \<^verbatim>\<open>ValueError\<close> of line 57, whatever the template workbook is (even one without the
  sheet that is written): the check comes before the template is loaded, and no document
  is returned.
\<close>

theorem populate_fiche_empty_general:
  "rows df_gen = [] \<Longrightarrow>
     populate_fiche conv df_gen df_lines wb row_index max_plan = Inl EmptyGeneralSheet"
  by (simp add: populate_fiche_def df_empty_def)

theorem populate_fiche_empty_general_witness:
  "populate_fiche iso_conv \<lparr>columns = [''Nom du client'', col_koncile_id], rows = []\<rparr>
     ex_lines Map.empty 0 6 = Inl EmptyGeneralSheet"
  using populate_fiche_empty_general
    [of "\<lparr>columns = [''Nom du client'', col_koncile_id], rows = []\<rparr>" iso_conv ex_lines Map.empty 0 6]
  by simp


text \<open>
  C3, as the code has it. A creation date that is present and that \<^verbatim>\<open>pd.to_datetime\<close>
  cannot convert is not skipped: the exception of \<^verbatim>\<open>pd.to_datetime\<close> leaves
  \<^verbatim>\<open>populate_fiche\<close>. It is raised while the dictionary of assignments is built, so
  before any cell is written, and no document is returned.
\<close>

theorem populate_fiche_unconvertible_date:
  assumes "\<not> df_empty df_gen" and "iloc df_gen row_index = Inr row"
    and "wb sheet_fiche = Some ws"
    and "pd_notna (series_get row col_date_creation)"
    and "to_datetime conv (series_get row col_date_creation) = Inl e"
  shows "populate_fiche conv df_gen df_lines wb row_index max_plan = Inl e"
  using assms
  by (simp add: populate_fiche_def err_bind_def assignments_def creation_date_def get_val_def
      pd_notna_def)

theorem populate_fiche_unconvertible_date_witness:
  "populate_fiche iso_conv (ex_general (PInt 1207) (PStr ''15 mars'')) ex_lines ex_workbook 0 6
     = Inl DatetimeError"
proof -
  let ?row = "zip [''Nom du client'', col_numero_of, col_koncile_id, col_date_creation, ''Nom du plan'']
              [PStr ''ACME'', PInt 1207, PStr ''K-42'', PStr ''15 mars'', PStr ''P-7'']"
  have g: "\<not> df_empty (ex_general (PInt 1207) (PStr ''15 mars''))"
    by (simp add: df_empty_def ex_general_def)
  have r: "iloc (ex_general (PInt 1207) (PStr ''15 mars'')) 0 = Inr ?row"
    by (rule iloc_ex_general)
  have w: "ex_workbook sheet_fiche = Some ex_sheet"
    by (simp add: ex_workbook_def)
  have v: "series_get ?row col_date_creation = PStr ''15 mars''"
    by (simp add: series_get_def)
  have n: "pd_notna (series_get ?row col_date_creation)"
    unfolding v by (simp add: pd_notna_def)
  have c: "to_datetime iso_conv (series_get ?row col_date_creation) = Inl DatetimeError"
    unfolding v by (simp add: to_datetime_def iso_conv_def)
  show ?thesis
    using populate_fiche_unconvertible_date
      [where wb = ex_workbook and df_lines = ex_lines and max_plan = 6, OF g r w n c] .
qed

text \<open>
  C3 as the specification states it fails: with the string \<^verbatim>\<open>abc\<close> as creation date,
  \<^verbatim>\<open>populate_fiche\<close> does not complete, it raises.
\<close>

theorem populate_fiche_bad_date_raises:
  "populate_fiche iso_conv (ex_general NaN (PStr ''abc'')) ex_lines ex_workbook 0 6 = Inl DatetimeError"
  by (rule map_sum_Inl_snd) code_simp


text \<open>
  C4. The file name is the fixed prefix, the identifier and \<^verbatim>\<open>.xlsx\<close>; but the
  identifier is not the Koncile ID when the work-order number is missing in the way
  pandas reports a missing cell. With \<^verbatim>\<open>nan\<close> as work-order number and \<^verbatim>\<open>K-42\<close> as
  Koncile ID the file is named after \<^verbatim>\<open>nan\<close>, although \<^verbatim>\<open>get_val\<close> of the same function
  treats the same value as missing.
\<close>

theorem file_name_nan_not_koncile_id:
  "map_sum id snd
     (populate_fiche iso_conv (ex_general NaN (PTimestamp ex_timestamp)) ex_lines ex_workbook 0 6)
   = Inr (file_name_prefix @ ''nan.xlsx'')"
  by code_simp












text \<open>
  C8. A creation date that is there and that \<^verbatim>\<open>pd.to_datetime\<close> converts to the
  timestamp \<open>t\<close> is shown at \<^verbatim>\<open>X2\<close> as the date of \<open>t\<close>: year, month and day, without
  the time of day.
\<close>

theorem populate_fiche_date_only:
  assumes "wb sheet_fiche = Some ws" and "template_ok ws" and "header_targets_distinct ws"
    and "\<not> df_empty df_gen" and "iloc df_gen row_index = Inr row" and "max_plan \<le> 6"
    and "pd_notna (series_get row col_date_creation)"
    and "to_datetime conv (series_get row col_date_creation) = Inr (PTimestamp t)"
  shows "\<exists>ws'. populate_fiche conv df_gen df_lines wb row_index max_plan
            = Inr (wb(sheet_fiche \<mapsto> ws'), file_name row)
     \<and> shown_at ws' ''X2'' = Some (PDate (ts_date t))"
proof -
  note d = creation_date_converted [OF assms(7,8)]
  from d obtain asg where asg: "assignments conv row = Inr asg"
    using creation_date_assignments by blast
  note cells = assignments_cells [OF asg]
  note mem = assignments_members [OF d asg]
  from assms(2) have um: "grid_unmerged (merged_cells ws)" by (simp add: template_ok_def)
  let ?k = "nat (min max_plan (int (length (rows df_lines))))"
  let ?ws' = "ws\<lparr>cells := apply_writes (apply_writes (cells ws) (header_writes (merged_cells ws) asg))
              (grid_writes df_lines ?k)\<rparr>"
  have k: "?k \<le> 6" using assms(6) by simp
  have r: "populate_fiche conv df_gen df_lines wb row_index max_plan
      = Inr (wb(sheet_fiche \<mapsto> ?ws'), file_name row)"
    by (rule populate_fiche_spec [where wb = wb, OF assms(2,1,4,5) asg assms(6)])
  from final_header_cell [OF um cells assms(3) mem(1) k, of df_lines]
  have "shown_at ?ws' ''X2'' = Some (PDate (ts_date t))" by simp
  with r show ?thesis by blast
qed

theorem populate_fiche_date_only_witness:
  "\<exists>ws' name. populate_fiche iso_conv (ex_general (PInt 1207) (PStr ''2024-03-15 14:30:00'')) ex_lines
              ex_workbook 0 6
            = Inr (ex_workbook(sheet_fiche \<mapsto> ws'), name)
     \<and> shown_at ws' ''X2'' = Some (PDate \<lparr>year = 2024, month = 3, day = 15\<rparr>)"
proof -
  let ?row = "zip [''Nom du client'', col_numero_of, col_koncile_id, col_date_creation, ''Nom du plan'']
          [PStr ''ACME'', PInt 1207, PStr ''K-42'', PStr ''2024-03-15 14:30:00'', PStr ''P-7'']"
  have v: "series_get ?row col_date_creation = PStr ''2024-03-15 14:30:00''"
    by (simp add: series_get_def)
  have n: "pd_notna (series_get ?row col_date_creation)"
    unfolding v by (simp add: pd_notna_def)
  have "iso_conv (PStr ''2024-03-15 14:30:00'') = Converted ex_timestamp"
    by code_simp
  then have c: "to_datetime iso_conv (series_get ?row col_date_creation) = Inr (PTimestamp ex_timestamp)"
    unfolding v by (simp add: to_datetime_def)
  from populate_fiche_date_only
    [where wb = ex_workbook and df_lines = ex_lines,
     OF ex_workbook_sheet ex_sheet_ok ex_sheet_headers ex_general_not_empty iloc_ex_general _ n c, of 6]
  show ?thesis by (auto simp: ex_timestamp_def)
qed

text \<open>
  C9. Two runs on the same source records and on two copies of one template (the same
  copy twice; or, for a well-formed table of merged ranges, two copies that hold the same
  ranges in any order) end alike: with the same error, or with the same cells in the
  sheet that was written and the same file name.
\<close>

theorem populate_fiche_deterministic:
  assumes "wb1 sheet_fiche = Some ws1" and "wb2 sheet_fiche = Some ws2"
    and "ws1 = ws2 \<or> same_template ws1 ws2"
  shows "written (populate_fiche conv df_gen df_lines wb1 row_index max_plan)
       = written (populate_fiche conv df_gen df_lines wb2 row_index max_plan)"
  using assms(3)
proof
  assume "ws1 = ws2"
  with assms(1,2) have "wb1 sheet_fiche = wb2 sheet_fiche" by simp
  then show ?thesis by (rule written_same_sheet)
next
  assume "same_template ws1 ws2"
  with assms(1,2) show ?thesis by (rule written_same_template)
qed

theorem populate_fiche_deterministic_witness:
  "written (populate_fiche iso_conv (ex_general (PInt 1207) (PTimestamp ex_timestamp)) ex_lines
              ex_workbook 0 6)
   = written (populate_fiche iso_conv (ex_general (PInt 1207) (PTimestamp ex_timestamp)) ex_lines
              [sheet_fiche \<mapsto> ex_sheet_reordered] 0 6)"
proof -
  have w: "[sheet_fiche \<mapsto> ex_sheet_reordered] sheet_fiche = Some ex_sheet_reordered"
    by simp
  have "same_template ex_sheet ex_sheet_reordered"
    using ex_sheet_table by (simp add: same_template_def ex_sheet_reordered_def)
  then have "ex_sheet = ex_sheet_reordered \<or> same_template ex_sheet ex_sheet_reordered" ..
  from populate_fiche_deterministic
    [where ?wb1.0 = ex_workbook and ?wb2.0 = "[sheet_fiche \<mapsto> ex_sheet_reordered]",
     OF ex_workbook_sheet w this]
  show ?thesis .
qed

text \<open>
  C10. The identifier of the file name is the work-order number when that value is true
  in Python's sense, and otherwise the Koncile ID or the empty string; the values that are
  not true are \<^verbatim>\<open>None\<close>, \<^verbatim>\<open>False\<close>, zero and the empty string. \<^verbatim>\<open>nan\<close> is true, so a
  work-order cell that holds \<^verbatim>\<open>nan\<close> gives the identifier \<^verbatim>\<open>nan\<close>.
\<close>

theorem file_name_identifier_fallback:
  assumes "populate_fiche conv df_gen df_lines wb row_index max_plan = Inr (wb', name)"
    and "iloc df_gen row_index = Inr row"
  shows "name = file_name_prefix
            @ (if truthy (series_get row col_numero_of) then py_str (series_get row col_numero_of)
               else py_str (py_or (series_get row col_koncile_id) (PStr [])))
            @ ''.xlsx''
       \<and> ((\<not> truthy v) =
            (v = PNone \<or> v = PBool False \<or> v = PInt 0 \<or> v = PFloat ''0.0'' \<or> v = PFloat ''-0.0''
              \<or> v = PStr []))
       \<and> (series_get row col_numero_of = NaN \<longrightarrow> name = file_name_prefix @ ''nan'' @ ''.xlsx'')"
proof -
  have n: "name = file_name row"
    using assms by (rule populate_file_name)
  have t: "(\<not> truthy v) =
            (v = PNone \<or> v = PBool False \<or> v = PInt 0 \<or> v = PFloat ''0.0'' \<or> v = PFloat ''-0.0''
              \<or> v = PStr [])"
    by (cases v) auto
  show ?thesis
    unfolding n using t by (simp add: file_name_def num_of_def py_or_def)
qed

theorem file_name_identifier_fallback_witness:
  "map_sum id snd (populate_fiche iso_conv (ex_general NaN NaN) ex_lines ex_workbook 0 6)
     = Inr (file_name_prefix @ ''nan'' @ ''.xlsx'')
   \<and> map_sum id snd (populate_fiche iso_conv (ex_general (PInt 0) NaN) ex_lines ex_workbook 0 6)
     = Inr (file_name_prefix @ ''K-42'' @ ''.xlsx'')"
proof -
  have "\<not> isl (populate_fiche iso_conv (ex_general NaN NaN) ex_lines ex_workbook 0 6)"
    by code_simp
  then obtain w1 n1 where
    p1: "populate_fiche iso_conv (ex_general NaN NaN) ex_lines ex_workbook 0 6 = Inr (w1, n1)"
    by (rule not_isl_populate)
  have "\<not> isl (populate_fiche iso_conv (ex_general (PInt 0) NaN) ex_lines ex_workbook 0 6)"
    by code_simp
  then obtain w2 n2 where
    p2: "populate_fiche iso_conv (ex_general (PInt 0) NaN) ex_lines ex_workbook 0 6 = Inr (w2, n2)"
    by (rule not_isl_populate)
  have "n1 = file_name_prefix @ ''nan'' @ ''.xlsx''"
    using file_name_identifier_fallback [OF p1 iloc_ex_general, of PNone]
    by (simp add: series_get_def)
  moreover have "n2 = file_name_prefix @ ''K-42'' @ ''.xlsx''"
    using file_name_identifier_fallback [OF p2 iloc_ex_general, of PNone]
    by (simp add: series_get_def py_or_def)
  ultimately show ?thesis by (simp add: p1 p2)
qed


end
